theory Spec2Isabelle
  imports Complex_Main
begin

section \<open>The attendance store (src/database/database_manager.py)\<close>

text \<open>
  The SQLite database of \<^verbatim>\<open>DatabaseManager\<close> is modelled by its two tables, each a list of
  rows in the order of insertion, the AUTOINCREMENT counter of the attendance table (its
  entry in \<^verbatim>\<open>sqlite_sequence\<close>) and the state of the
  connection (\<^verbatim>\<open>close()\<close> closes it; every later \<^verbatim>\<open>cursor.execute\<close> raises
  \<^verbatim>\<open>sqlite3.ProgrammingError\<close>). Timestamps (\<^verbatim>\<open>datetime\<close>) and calendar dates
  (\<^verbatim>\<open>date\<close>) are opaque integers. A call of \<^verbatim>\<open>mark_attendance\<close> reads three things
  from its surroundings, which are parameters of the modelled method: the clock readings
  \<^verbatim>\<open>datetime.now()\<close> and \<^verbatim>\<open>date.today()\<close>, and whether another connection keeps the
  database file locked for longer than this connection's timeout, in which case the
  statement that has to wait raises \<^verbatim>\<open>sqlite3.OperationalError\<close> (database is locked).
  SQLite does not enforce the FOREIGN KEY clause unless \<^verbatim>\<open>PRAGMA foreign_keys\<close> is
  switched on, which the code never does, so it constrains nothing here.
\<close>

datatype py_error =
  ProgrammingError | OverflowError | OperationalError | IntegrityError | ValueError | IndexError

type_synonym py_datetime = int
type_synonym py_date = int

record person_row =
  p_id :: int
  p_name :: string
  p_role :: string
  p_face_encoding :: "real list"
  p_image_path :: "string option"
  p_created_at :: py_datetime

record attendance_row =
  a_id :: int
  person_id :: int
  date :: py_date
  time_in :: "py_datetime option"
  time_out :: "py_datetime option"
  status :: string

record DatabaseManager =
  people :: "person_row list"
  attendance :: "attendance_row list"
  attendance_seq :: int
  conn_closed :: bool

text \<open>
  The integers that \<^verbatim>\<open>sqlite3\<close> binds to a statement parameter: a Python \<^verbatim>\<open>int\<close> outside
  the signed 64-bit range makes \<^verbatim>\<open>cursor.execute\<close> raise \<^verbatim>\<open>OverflowError\<close>. A closed
  connection is detected before the parameters are bound.
\<close>

definition sqlite_integer :: "int \<Rightarrow> bool" where
  "sqlite_integer n = (- (2 ^ 63) \<le> n \<and> n < 2 ^ 63)"

text \<open>The rows selected by \<^verbatim>\<open>WHERE person_id = ? AND date = ?\<close>.\<close>

definition rows_for :: "int \<Rightarrow> py_date \<Rightarrow> attendance_row list \<Rightarrow> attendance_row list" where
  "rows_for pid d rows = filter (\<lambda>r. person_id r = pid \<and> date r = d) rows"

text \<open>\<^verbatim>\<open>SELECT id FROM attendance WHERE person_id = ? AND date = ?\<close>, then \<^verbatim>\<open>fetchone()\<close>.\<close>

definition select_attendance :: "DatabaseManager \<Rightarrow> int \<Rightarrow> py_date \<Rightarrow> py_error + int option" where
  "select_attendance db pid today =
     (if conn_closed db then Inl ProgrammingError
      else if \<not> sqlite_integer pid then Inl OverflowError
      else Inr (case rows_for pid today (attendance db) of
                  [] \<Rightarrow> None
                | r # _ \<Rightarrow> Some (a_id r)))"

text \<open>\<^verbatim>\<open>UPDATE attendance SET time_out = ? WHERE person_id = ? AND date = ?\<close>.\<close>

definition update_time_out ::
  "DatabaseManager \<Rightarrow> py_datetime \<Rightarrow> int \<Rightarrow> py_date \<Rightarrow> py_error + DatabaseManager" where
  "update_time_out db t pid today =
     (if conn_closed db then Inl ProgrammingError
      else if \<not> sqlite_integer pid then Inl OverflowError
      else Inr (db\<lparr>attendance :=
                  map (\<lambda>r. if person_id r = pid \<and> date r = today
                            then r\<lparr>time_out := Some t\<rparr> else r)
                      (attendance db)\<rparr>))"

text \<open>
  The rowid that \<^verbatim>\<open>INTEGER PRIMARY KEY AUTOINCREMENT\<close> gives a new row: one more than the
  largest rowid the table has ever held, which is the larger of the stored counter and the
  largest id in the table.
\<close>

definition next_rowid :: "DatabaseManager \<Rightarrow> int" where
  "next_rowid db = fold max (map a_id (attendance db)) (attendance_seq db) + 1"

text \<open>
  \<^verbatim>\<open>INSERT INTO attendance (person_id, date, time_in, status) VALUES (?, ?, ?, 'present')\<close>.
  When the largest 64-bit rowid has been used, no rowid is left and the statement raises
  \<^verbatim>\<open>sqlite3.OperationalError\<close> (database or disk is full), before any constraint is
  checked. The table's \<^verbatim>\<open>UNIQUE(person_id, date)\<close> constraint makes the statement raise
  \<^verbatim>\<open>sqlite3.IntegrityError\<close> when a row with that pair is already stored.
\<close>

definition insert_attendance ::
  "DatabaseManager \<Rightarrow> int \<Rightarrow> py_date \<Rightarrow> py_datetime \<Rightarrow> py_error + DatabaseManager" where
  "insert_attendance db pid today t =
     (if conn_closed db then Inl ProgrammingError
      else if \<not> sqlite_integer pid then Inl OverflowError
      else if \<not> sqlite_integer (next_rowid db) then Inl OperationalError
      else if rows_for pid today (attendance db) \<noteq> [] then Inl IntegrityError
      else Inr (db\<lparr>attendance := attendance db @
                    [\<lparr>a_id = next_rowid db, person_id = pid, date = today,
                      time_in = Some t, time_out = None, status = ''present''\<rparr>],
                  attendance_seq := next_rowid db\<rparr>))"

text \<open>The timestamp a call works with: the argument, or the clock when it is \<^verbatim>\<open>None\<close>.\<close>

definition supplied :: "py_datetime option \<Rightarrow> py_datetime \<Rightarrow> py_datetime" where
  "supplied time_in_arg now = (case time_in_arg of None \<Rightarrow> now | Some t \<Rightarrow> t)"

text \<open>
  \<^verbatim>\<open>mark_attendance(person_id, time_in)\<close>: the body of the \<^verbatim>\<open>try\<close>, and the handler
  \<^verbatim>\<open>except Exception\<close> that answers \<^verbatim>\<open>False\<close>. The result is the store after the call
  and the returned flag. When the file is locked, the UPDATE or INSERT raises (under an
  exclusive lock the SELECT raises already; the call ends the same way).
\<close>

definition mark_attendance ::
  "DatabaseManager \<Rightarrow> int \<Rightarrow> py_datetime option \<Rightarrow> py_datetime \<Rightarrow> py_date \<Rightarrow> bool
     \<Rightarrow> DatabaseManager \<times> bool" where
  "mark_attendance db pid time_in_arg now today locked =
     (let t = supplied time_in_arg now in
      case select_attendance db pid today of
        Inl e \<Rightarrow> (db, False)
      | Inr existing \<Rightarrow>
          (case (if locked then Inl OperationalError
                 else if existing \<noteq> None then update_time_out db t pid today
                 else insert_attendance db pid today t) of
             Inl e \<Rightarrow> (db, False)
           | Inr db' \<Rightarrow> (db', True)))"

text \<open>
  A sequence of calls, each with its arguments, its clock readings and the state of the
  file lock.
\<close>

fun mark_attendance_calls ::
  "DatabaseManager \<Rightarrow> (int \<times> py_datetime option \<times> py_datetime \<times> py_date \<times> bool) list
     \<Rightarrow> DatabaseManager" where
  "mark_attendance_calls db [] = db"
| "mark_attendance_calls db ((pid, time_in_arg, now, today, locked) # calls) =
     mark_attendance_calls (fst (mark_attendance db pid time_in_arg now today locked)) calls"

text \<open>
  The same statements when other workers, each on a connection of its own to the same
  database file, complete their calls of \<^verbatim>\<open>mark_attendance\<close> between this call's SELECT
  and the statement that follows it: \<open>others\<close> lists those calls. \<^verbatim>\<open>mark_attendance\<close> is
  the case where \<open>others\<close> is empty.
\<close>

definition mark_attendance_interleaved ::
  "(int \<times> py_datetime option \<times> py_datetime \<times> py_date \<times> bool) list \<Rightarrow> DatabaseManager \<Rightarrow> int
     \<Rightarrow> py_datetime option \<Rightarrow> py_datetime \<Rightarrow> py_date \<Rightarrow> bool \<Rightarrow> DatabaseManager \<times> bool" where
  "mark_attendance_interleaved others db pid time_in_arg now today locked =
     (let t = supplied time_in_arg now in
      case select_attendance db pid today of
        Inl e \<Rightarrow> (db, False)
      | Inr existing \<Rightarrow>
          (let db1 = mark_attendance_calls db others in
           case (if locked then Inl OperationalError
                 else if existing \<noteq> None then update_time_out db1 t pid today
                 else insert_attendance db1 pid today t) of
             Inl e \<Rightarrow> (db1, False)
           | Inr db' \<Rightarrow> (db', True)))"

text \<open>The invariant \<^verbatim>\<open>UNIQUE(person_id, date)\<close> of the attendance table.\<close>

definition unique_person_date :: "attendance_row list \<Rightarrow> bool" where
  "unique_person_date rows = distinct (map (\<lambda>r. (person_id r, date r)) rows)"

text \<open>\<^verbatim>\<open>_get_person_id(name)\<close>: \<^verbatim>\<open>SELECT id FROM people WHERE name = ?\<close>, then \<^verbatim>\<open>fetchone()\<close>.\<close>

definition get_person_id :: "DatabaseManager \<Rightarrow> string \<Rightarrow> py_error + int option" where
  "get_person_id db name =
     (if conn_closed db then Inl ProgrammingError
      else Inr (case filter (\<lambda>p. p_name p = name) (people db) of
                  [] \<Rightarrow> None
                | p # _ \<Rightarrow> Some (p_id p)))"

text \<open>
  \<^verbatim>\<open>remove_person(name)\<close>: the lookup, the early return when it finds nothing, the two
  DELETE statements, and the handler \<^verbatim>\<open>except Exception\<close> that answers \<^verbatim>\<open>False\<close>. The
  removal is modelled on a database file that no other connection keeps locked.
\<close>

definition remove_person :: "DatabaseManager \<Rightarrow> string \<Rightarrow> DatabaseManager \<times> bool" where
  "remove_person db name =
     (case get_person_id db name of
        Inl e \<Rightarrow> (db, False)
      | Inr None \<Rightarrow> (db, False)
      | Inr (Some pid) \<Rightarrow>
          (db\<lparr>attendance := filter (\<lambda>r. person_id r \<noteq> pid) (attendance db),
              people := filter (\<lambda>p. p_id p \<noteq> pid) (people db)\<rparr>, True))"

text \<open>
  \<^verbatim>\<open>DatabaseManager(db_path)\<close> on a path that holds no database yet: both tables are
  created empty. Then \<^verbatim>\<open>close()\<close>.
\<close>

definition new_database :: DatabaseManager where
  "new_database = \<lparr>people = [], attendance = [], attendance_seq = 0, conn_closed = False\<rparr>"


definition close :: "DatabaseManager \<Rightarrow> DatabaseManager" where
  "close db = db\<lparr>conn_closed := True\<rparr>"

section \<open>Face matching (src/face_module/face_recognizer.py)\<close>

text \<open>
  A face encoding is a vector of binary64 numbers and the tolerance is one such number. A
  finite binary64 number is a real number, and comparing two of them is comparing the
  reals, so vectors are lists of reals here; the model covers finite values only (no NaN,
  no infinity). Arithmetic on them rounds, and how it rounds is not decided by this
  repository, so the two rounded operations of the matcher are parameters of the model:

  \<^item> \<open>nrm a b\<close> is the binary64 number that the \<^verbatim>\<open>face_recognition\<close> library obtains for
    two vectors of one length, \<^verbatim>\<open>np.linalg.norm(a - b)\<close>, each row of
    \<^verbatim>\<open>np.linalg.norm(face_encodings - face_to_compare, axis=1)\<close>;
  \<^item> \<open>rnd x\<close> is the binary64 number that the exact result \<open>x\<close> of one arithmetic
    operation is rounded to.

  \<^verbatim>\<open>face_distance\<close> is the empty array for no known encodings. Else numpy makes an array of
  the list of known encodings (\<^verbatim>\<open>ValueError\<close> when they differ in length) and subtracts
  the probe under its broadcasting rule: the lengths agree, or one of the two is 1 and that
  single component is repeated; any other pair of lengths raises \<^verbatim>\<open>ValueError\<close>.
  \<^verbatim>\<open>compare_faces\<close> is \<^verbatim>\<open>list(face_distance(...) <= tolerance)\<close>.
\<close>

type_synonym location = "int \<times> int \<times> int \<times> int"

definition face_distance ::
  "(real list \<Rightarrow> real list \<Rightarrow> real) \<Rightarrow> real list list \<Rightarrow> real list \<Rightarrow> py_error + real list" where
  "face_distance nrm face_encodings face_to_compare =
     (if length face_encodings = 0 then Inr []
      else
        (let n = length (hd face_encodings); m = length face_to_compare in
         if \<not> list_all (\<lambda>e. length e = n) face_encodings then Inl ValueError
         else if m = n then Inr (map (\<lambda>e. nrm e face_to_compare) face_encodings)
         else if m = 1
           then Inr (map (\<lambda>e. nrm e (replicate n (hd face_to_compare))) face_encodings)
         else if n = 1
           then Inr (map (\<lambda>e. nrm (replicate m (hd e)) face_to_compare) face_encodings)
         else Inl ValueError))"

definition compare_faces ::
  "(real list \<Rightarrow> real list \<Rightarrow> real) \<Rightarrow> real list list \<Rightarrow> real list \<Rightarrow> real
     \<Rightarrow> py_error + bool list" where
  "compare_faces nrm known_face_encodings face_encoding_to_check tol =
     (case face_distance nrm known_face_encodings face_encoding_to_check of
        Inl e \<Rightarrow> Inl e
      | Inr ds \<Rightarrow> Inr (map (\<lambda>d. d \<le> tol) ds))"

text \<open>The usual case: every known encoding has the length of the probe.\<close>

definition same_dimension :: "real list list \<Rightarrow> real list \<Rightarrow> bool" where
  "same_dimension face_encodings face_to_compare =
     list_all (\<lambda>e. length e = length face_to_compare) face_encodings"

text \<open>
  \<^verbatim>\<open>np.argmin\<close>: the index of the first occurrence of the minimum; it raises
  \<^verbatim>\<open>ValueError\<close> on an empty array.
\<close>

fun first_min_index :: "real list \<Rightarrow> nat" where
  "first_min_index [] = 0"
| "first_min_index [x] = 0"
| "first_min_index (x # y # ys) =
     (let k = first_min_index (y # ys) in if x \<le> (y # ys) ! k then 0 else Suc k)"

definition argmin :: "real list \<Rightarrow> py_error + nat" where
  "argmin ds = (if ds = [] then Inl ValueError else Inr (first_min_index ds))"

text \<open>Reading a Python list at a non-negative index.\<close>

definition py_index :: "'a list \<Rightarrow> nat \<Rightarrow> py_error + 'a" where
  "py_index xs i = (if i < length xs then Inr (xs ! i) else Inl IndexError)"

record FaceRecognizer =
  known_face_encodings :: "real list list"
  known_face_ids :: "int list"
  known_face_names :: "string list"
  tolerance :: real
  recognized_today :: "int set"

text \<open>\<^verbatim>\<open>FaceRecognizer(known_faces, tolerance)\<close>.\<close>

definition FaceRecognizer_init ::
  "(int \<times> string \<times> real list) list \<Rightarrow> real \<Rightarrow> FaceRecognizer" where
  "FaceRecognizer_init known_faces tol =
     \<lparr>known_face_encodings = map (\<lambda>face. snd (snd face)) known_faces,
      known_face_ids = map fst known_faces,
      known_face_names = map (\<lambda>face. fst (snd face)) known_faces,
      tolerance = tol,
      recognized_today = {}\<rparr>"

text \<open>
  The three lists of a recognizer are set together, by the constructor and by
  \<^verbatim>\<open>update_known_faces\<close>, so they are equally long.
\<close>

definition parallel_lists :: "FaceRecognizer \<Rightarrow> bool" where
  "parallel_lists rec =
     (length (known_face_ids rec) = length (known_face_encodings rec) \<and>
      length (known_face_names rec) = length (known_face_encodings rec))"

text \<open>
  The matching code that \<^verbatim>\<open>recognize_faces_from_webcam\<close> (lines 70 to 92) and
  \<^verbatim>\<open>recognize_face_from_frame\<close> (lines 154 to 175) both run on one face encoding. The
  result is \<open>None\<close> for an unknown face and else the \<^verbatim>\<open>person_id\<close>, the \<^verbatim>\<open>name\<close>
  and the distance \<^verbatim>\<open>face_distances[best_match_index]\<close> of the accepted identity.
\<close>

definition best_match ::
  "(real list \<Rightarrow> real list \<Rightarrow> real) \<Rightarrow> FaceRecognizer \<Rightarrow> real list
     \<Rightarrow> py_error + (int \<times> string \<times> real) option" where
  "best_match nrm rec face_encoding =
     (case compare_faces nrm (known_face_encodings rec) face_encoding (tolerance rec) of
        Inl e \<Rightarrow> Inl e
      | Inr matches \<Rightarrow>
          if length (known_face_encodings rec) > 0 then
            (case face_distance nrm (known_face_encodings rec) face_encoding of
               Inl e \<Rightarrow> Inl e
             | Inr face_distances \<Rightarrow>
                 (case argmin face_distances of
                    Inl e \<Rightarrow> Inl e
                  | Inr best_match_index \<Rightarrow>
                      (case py_index matches best_match_index of
                         Inl e \<Rightarrow> Inl e
                       | Inr accepted \<Rightarrow>
                           if accepted then
                             (case py_index (known_face_names rec) best_match_index of
                                Inl e \<Rightarrow> Inl e
                              | Inr name \<Rightarrow>
                                  (case py_index (known_face_ids rec) best_match_index of
                                     Inl e \<Rightarrow> Inl e
                                   | Inr pid \<Rightarrow>
                                       (case py_index face_distances best_match_index of
                                          Inl e \<Rightarrow> Inl e
                                        | Inr d \<Rightarrow> Inr (Some (pid, name, d)))))
                           else Inr None)))
          else Inr None)"

text \<open>
  \<^verbatim>\<open>recognize_face_from_frame\<close>: the entry of \<^verbatim>\<open>results\<close> for one detected face, and the
  loop over the detected faces (the encodings and locations the detector returned). The
  confidence of an accepted match is the rounded difference \<^verbatim>\<open>1 - distance\<close>.
\<close>

record face_result =
  res_person_id :: "int option"
  res_name :: string
  res_location :: location
  res_confidence :: real

definition recognize_face ::
  "(real list \<Rightarrow> real list \<Rightarrow> real) \<Rightarrow> (real \<Rightarrow> real) \<Rightarrow> FaceRecognizer \<Rightarrow> real list \<Rightarrow> location
     \<Rightarrow> py_error + face_result" where
  "recognize_face nrm rnd rec face_encoding face_location =
     (case best_match nrm rec face_encoding of
        Inl e \<Rightarrow> Inl e
      | Inr None \<Rightarrow>
          Inr \<lparr>res_person_id = None, res_name = ''Unknown'',
               res_location = face_location, res_confidence = 0\<rparr>
      | Inr (Some (pid, name, d)) \<Rightarrow>
          Inr \<lparr>res_person_id = Some pid, res_name = name,
               res_location = face_location, res_confidence = rnd (1 - d)\<rparr>)"

fun recognize_face_from_frame ::
  "(real list \<Rightarrow> real list \<Rightarrow> real) \<Rightarrow> (real \<Rightarrow> real) \<Rightarrow> FaceRecognizer
     \<Rightarrow> (real list \<times> location) list \<Rightarrow> py_error + face_result list" where
  "recognize_face_from_frame nrm rnd rec [] = Inr []"
| "recognize_face_from_frame nrm rnd rec ((face_encoding, face_location) # faces) =
     (case recognize_face nrm rnd rec face_encoding face_location of
        Inl e \<Rightarrow> Inl e
      | Inr r \<Rightarrow>
          (case recognize_face_from_frame nrm rnd rec faces of
             Inl e \<Rightarrow> Inl e
           | Inr rs \<Rightarrow> Inr (r # rs)))"

text \<open>
  What is used of binary64 rounding: a larger exact result never rounds to a smaller
  number, and 0 and 1 are binary64 numbers, so they round to themselves.
\<close>

definition rounds_to_nearest :: "(real \<Rightarrow> real) \<Rightarrow> bool" where
  "rounds_to_nearest rnd = (mono rnd \<and> rnd 0 = 0 \<and> rnd 1 = 1)"

text \<open>
  What is used of the library's norm: it is never negative, and it is 0 for a vector and
  itself (every component of the difference is then the binary64 zero).
\<close>

definition norm_like :: "(real list \<Rightarrow> real list \<Rightarrow> real) \<Rightarrow> bool" where
  "norm_like nrm = ((\<forall>a b. 0 \<le> nrm a b) \<and> (\<forall>a. nrm a a = 0))"

text \<open>
  The exact Euclidean distance of two vectors of one length, which the library's norm
  approximates.
\<close>

definition euclidean :: "real list \<Rightarrow> real list \<Rightarrow> real" where
  "euclidean a b = sqrt (sum_list (map (\<lambda>(x, y). (x - y)\<^sup>2) (zip a b)))"

text \<open>
  \<^verbatim>\<open>recognize_faces_from_webcam\<close>, lines 68 to 98: what one detected face does to the
  recognizer and to the world the callback acts on. The callback \<^verbatim>\<open>on_recognition\<close> is
  \<open>None\<close> or a function of the state it changes. It is also given the surroundings at the
  moment of the call, which the Python callback reads for itself: the two clock readings
  and whether the database file is locked.
\<close>

type_synonym moment = "py_datetime \<times> py_date \<times> bool"

definition webcam_face ::
  "(real list \<Rightarrow> real list \<Rightarrow> real) \<Rightarrow> (moment \<Rightarrow> 's \<Rightarrow> int \<Rightarrow> string \<Rightarrow> 's) option
     \<Rightarrow> FaceRecognizer \<times> 's \<Rightarrow> real list \<times> moment \<Rightarrow> py_error + FaceRecognizer \<times> 's" where
  "webcam_face nrm on_recognition st face =
     (case best_match nrm (fst st) (fst face) of
        Inl e \<Rightarrow> Inl e
      | Inr None \<Rightarrow> Inr st
      | Inr (Some (pid, name, d)) \<Rightarrow>
          (case on_recognition of
             None \<Rightarrow> Inr st
           | Some callback \<Rightarrow>
               if pid \<notin> recognized_today (fst st)
               then Inr ((fst st)\<lparr>recognized_today := insert pid (recognized_today (fst st))\<rparr>,
                         callback (snd face) (snd st) pid name)
               else Inr st))"

text \<open>
  The detected faces of the analysed frames of a session, in the order they are processed.
  An exception of the matching code ends the session.
\<close>

fun webcam_faces ::
  "(real list \<Rightarrow> real list \<Rightarrow> real) \<Rightarrow> (moment \<Rightarrow> 's \<Rightarrow> int \<Rightarrow> string \<Rightarrow> 's) option
     \<Rightarrow> FaceRecognizer \<times> 's \<Rightarrow> (real list \<times> moment) list \<Rightarrow> py_error + FaceRecognizer \<times> 's" where
  "webcam_faces nrm on_recognition st [] = Inr st"
| "webcam_faces nrm on_recognition st (face # faces) =
     (case webcam_face nrm on_recognition st face of
        Inl e \<Rightarrow> Inl e
      | Inr st' \<Rightarrow> webcam_faces nrm on_recognition st' faces)"

text \<open>
  A detected face is an accepted match of the identity \<open>pid\<close>: the matching code accepts
  it and answers that \<^verbatim>\<open>person_id\<close>.
\<close>

definition accepted_as ::
  "(real list \<Rightarrow> real list \<Rightarrow> real) \<Rightarrow> FaceRecognizer \<Rightarrow> int \<Rightarrow> real list \<times> moment \<Rightarrow> bool" where
  "accepted_as nrm rec pid face =
     (case best_match nrm rec (fst face) of
        Inr (Some (p, name, d)) \<Rightarrow> p = pid
      | _ \<Rightarrow> False)"

text \<open>\<^verbatim>\<open>reset_recognition_cache()\<close>.\<close>

definition reset_recognition_cache :: "FaceRecognizer \<Rightarrow> FaceRecognizer" where
  "reset_recognition_cache rec = rec\<lparr>recognized_today := {}\<rparr>"


text \<open>
  A callback that only records its calls, in order: the \<^verbatim>\<open>person_id\<close>, the name and the
  moment of each.
\<close>

definition record_call ::
  "moment \<Rightarrow> (int \<times> string \<times> moment) list \<Rightarrow> int \<Rightarrow> string \<Rightarrow> (int \<times> string \<times> moment) list" where
  "record_call m calls pid name = calls @ [(pid, name, m)]"

text \<open>Running a callback on a list of recorded calls.\<close>

definition replay ::
  "(moment \<Rightarrow> 's \<Rightarrow> int \<Rightarrow> string \<Rightarrow> 's) \<Rightarrow> 's \<Rightarrow> (int \<times> string \<times> moment) list \<Rightarrow> 's" where
  "replay callback s calls =
     foldl (\<lambda>s call. callback (snd (snd call)) s (fst call) (fst (snd call))) s calls"

section \<open>Example data\<close>

text \<open>Two registered people and a store with attendance rows of both.\<close>

definition alice :: person_row where
  "alice = \<lparr>p_id = 1, p_name = ''Alice'', p_role = ''student'', p_face_encoding = [0, 0],
            p_image_path = None, p_created_at = 0\<rparr>"

definition bob :: person_row where
  "bob = \<lparr>p_id = 2, p_name = ''Bob'', p_role = ''employee'', p_face_encoding = [1, 0],
          p_image_path = None, p_created_at = 0\<rparr>"

definition example_database :: DatabaseManager where
  "example_database =
     \<lparr>people = [alice, bob],
      attendance =
        [\<lparr>a_id = 1, person_id = 1, date = 5, time_in = Some 900, time_out = None,
          status = ''present''\<rparr>,
         \<lparr>a_id = 2, person_id = 2, date = 5, time_in = Some 910, time_out = Some 950,
          status = ''present''\<rparr>,
         \<lparr>a_id = 3, person_id = 1, date = 6, time_in = Some 905, time_out = None,
          status = ''present''\<rparr>],
      attendance_seq = 3, conn_closed = False\<rparr>"

text \<open>
  The examples use vectors with small whole components, on which binary64 arithmetic is
  exact: there the library's norm is the Euclidean distance itself, and nothing is rounded.
\<close>

definition exact :: "real \<Rightarrow> real" where
  "exact x = x"

text \<open>A recognizer that knows both people, with the default tolerance.\<close>

definition alice_recognizer :: FaceRecognizer where
  "alice_recognizer = FaceRecognizer_init [(1, ''Alice'', [0, 0]), (2, ''Bob'', [1, 0])] (6 / 10)"

section \<open>Properties of the attendance store\<close>

lemma rows_for_append: "rows_for pid d (xs @ ys) = rows_for pid d xs @ rows_for pid d ys"
  by (simp add: rows_for_def)

lemma rows_for_empty_iff:
  "rows_for pid d rows = [] \<longleftrightarrow> (pid, d) \<notin> set (map (\<lambda>r. (person_id r, date r)) rows)"
  by (auto simp: rows_for_def filter_empty_conv)

lemma keys_update:
  "(\<lambda>r. (person_id r, date r)) \<circ>
     (\<lambda>r. if person_id r = pid \<and> date r = today then r\<lparr>time_out := Some t\<rparr> else r)
   = (\<lambda>r. (person_id r, date r))"
  by (auto simp: fun_eq_iff)

text \<open>
  The three ways a call fails, each leaving the store as it was, and the two ways it
  succeeds.
\<close>

lemma mark_attendance_failed:
  "conn_closed db \<or> \<not> sqlite_integer pid \<or> locked \<Longrightarrow>
   mark_attendance db pid ti now today locked = (db, False)"
  by (auto simp: mark_attendance_def select_attendance_def)

lemma mark_attendance_full:
  assumes "rows_for pid today (attendance db) = []" "\<not> sqlite_integer (next_rowid db)"
  shows "mark_attendance db pid ti now today locked = (db, False)"
  using assms
  by (cases locked)
     (simp_all add: mark_attendance_def select_attendance_def insert_attendance_def Let_def)

lemma mark_attendance_new:
  assumes "\<not> conn_closed db" "sqlite_integer pid" "\<not> locked"
    and "rows_for pid today (attendance db) = []" "sqlite_integer (next_rowid db)"
  shows "mark_attendance db pid ti now today locked =
     (db\<lparr>attendance := attendance db @
            [\<lparr>a_id = next_rowid db, person_id = pid, date = today,
              time_in = Some (supplied ti now), time_out = None, status = ''present''\<rparr>],
          attendance_seq := next_rowid db\<rparr>, True)"
  using assms by (simp add: mark_attendance_def select_attendance_def insert_attendance_def)

lemma mark_attendance_seen:
  assumes "\<not> conn_closed db" "sqlite_integer pid" "\<not> locked"
    and "rows_for pid today (attendance db) \<noteq> []"
  shows "mark_attendance db pid ti now today locked =
     (db\<lparr>attendance :=
            map (\<lambda>r. if person_id r = pid \<and> date r = today
                      then r\<lparr>time_out := Some (supplied ti now)\<rparr> else r)
                (attendance db)\<rparr>, True)"
  using assms
  by (simp add: mark_attendance_def select_attendance_def update_time_out_def split: list.splits)




lemma mark_attendance_keys_seen:
  assumes "rows_for pid today (attendance db) \<noteq> []"
  shows "map (\<lambda>r. (person_id r, date r)) (attendance (fst (mark_attendance db pid ti now today locked)))
           = map (\<lambda>r. (person_id r, date r)) (attendance db)"
proof (cases "conn_closed db \<or> \<not> sqlite_integer pid \<or> locked")
  case True
  then show ?thesis by (simp add: mark_attendance_failed)
next
  case False
  with assms show ?thesis by (simp add: mark_attendance_seen keys_update)
qed

lemma mark_attendance_unique:
  assumes "unique_person_date (attendance db)"
  shows "unique_person_date (attendance (fst (mark_attendance db pid ti now today locked)))"
proof (cases "conn_closed db \<or> \<not> sqlite_integer pid \<or> locked")
  case True
  then show ?thesis using assms by (simp add: mark_attendance_failed)
next
  case False
  show ?thesis
  proof (cases "rows_for pid today (attendance db) = []")
    case True
    with False assms show ?thesis
      by (cases "sqlite_integer (next_rowid db)")
         (simp_all add: mark_attendance_new mark_attendance_full unique_person_date_def
            rows_for_empty_iff)
  next
    case False
    then show ?thesis
      using assms mark_attendance_keys_seen[OF False, of ti now locked]
      by (simp add: unique_person_date_def)
  qed
qed

lemma mark_attendance_calls_unique:
  "unique_person_date (attendance db) \<Longrightarrow>
   unique_person_date (attendance (mark_attendance_calls db calls))"
proof (induction calls arbitrary: db)
  case Nil
  then show ?case by simp
next
  case (Cons c calls)
  obtain pid ti now today locked where c: "c = (pid, ti, now, today, locked)"
    by (cases c) auto
  from Cons.prems
  have "unique_person_date (attendance (fst (mark_attendance db pid ti now today locked)))"
    by (rule mark_attendance_unique)
  then show ?case unfolding c by (simp add: Cons.IH)
qed

lemma unique_rows_for_le_1:
  "unique_person_date rows \<Longrightarrow> length (rows_for pid d rows) \<le> 1"
proof (induction rows)
  case Nil
  then show ?case by (simp add: rows_for_def)
next
  case (Cons r rows)
  show ?case
  proof (cases "person_id r = pid \<and> date r = d")
    case True
    with Cons.prems have "(pid, d) \<notin> set (map (\<lambda>r. (person_id r, date r)) rows)"
      by (auto simp: unique_person_date_def)
    then have "rows_for pid d rows = []" by (simp add: rows_for_empty_iff)
    with True show ?thesis by (simp add: rows_for_def)
  next
    case False
    with Cons show ?thesis by (auto simp: rows_for_def unique_person_date_def)
  qed
qed

text \<open>
  Claim C1. Take a call of \<^verbatim>\<open>mark_attendance\<close> that can reach the store: the connection is
  open, the \<^verbatim>\<open>person_id\<close> is an integer SQLite can bind, and the file is not locked. If
  the person has no row for the date and a rowid is left for one, the call returns \<^verbatim>\<open>True\<close> and appends exactly one
  row, with \<^verbatim>\<open>time_in\<close> the timestamp argument (the clock reading when the argument is
  \<^verbatim>\<open>None\<close>), \<^verbatim>\<open>time_out\<close> \<^verbatim>\<open>None\<close> and status \<^verbatim>\<open>'present'\<close>. Any call, reaching
  the store or not, for a pair that already has a row leaves the pairs of the table as they
  are: no second row. Hence a table that holds at most one row per pair, as the empty one
  does, still does after any sequence of calls.
\<close>

theorem mark_attendance_one_record_per_person_and_date:
  "(\<not> conn_closed db \<and> sqlite_integer pid \<and> \<not> locked \<and>
      rows_for pid today (attendance db) = [] \<and> sqlite_integer (fold max (map a_id (attendance db)) (attendance_seq db) + 1) \<longrightarrow>
      mark_attendance db pid time_in_arg now today locked =
        (db\<lparr>attendance := attendance db @
               [\<lparr>a_id = fold max (map a_id (attendance db)) (attendance_seq db) + 1, person_id = pid, date = today,
                 time_in = Some (case time_in_arg of None \<Rightarrow> now | Some t \<Rightarrow> t),
                 time_out = None, status = ''present''\<rparr>],
             attendance_seq := fold max (map a_id (attendance db)) (attendance_seq db) + 1\<rparr>, True)) \<and>
   (rows_for pid today (attendance db) \<noteq> [] \<longrightarrow>
      map (\<lambda>r. (person_id r, date r))
          (attendance (fst (mark_attendance db pid time_in_arg now today locked))) =
        map (\<lambda>r. (person_id r, date r)) (attendance db)) \<and>
   (unique_person_date (attendance db) \<longrightarrow>
      unique_person_date (attendance (mark_attendance_calls db calls)) \<and>
      length (rows_for pid today (attendance (mark_attendance_calls db calls))) \<le> 1)"
proof (intro conjI impI)
  assume a: "\<not> conn_closed db \<and> sqlite_integer pid \<and> \<not> locked \<and>
      rows_for pid today (attendance db) = [] \<and> sqlite_integer (fold max (map a_id (attendance db)) (attendance_seq db) + 1)"
  then show "mark_attendance db pid time_in_arg now today locked =
        (db\<lparr>attendance := attendance db @
               [\<lparr>a_id = fold max (map a_id (attendance db)) (attendance_seq db) + 1, person_id = pid, date = today,
                 time_in = Some (case time_in_arg of None \<Rightarrow> now | Some t \<Rightarrow> t),
                 time_out = None, status = ''present''\<rparr>],
             attendance_seq := fold max (map a_id (attendance db)) (attendance_seq db) + 1\<rparr>, True)"
    by (simp add: mark_attendance_new supplied_def next_rowid_def)
next
  assume "rows_for pid today (attendance db) \<noteq> []"
  then show "map (\<lambda>r. (person_id r, date r))
          (attendance (fst (mark_attendance db pid time_in_arg now today locked))) =
        map (\<lambda>r. (person_id r, date r)) (attendance db)"
    by (rule mark_attendance_keys_seen)
next
  assume u: "unique_person_date (attendance db)"
  then show "unique_person_date (attendance (mark_attendance_calls db calls))"
    by (rule mark_attendance_calls_unique)
  then show "length (rows_for pid today (attendance (mark_attendance_calls db calls))) \<le> 1"
    by (rule unique_rows_for_le_1)
qed

lemma new_database_simps:
  "conn_closed new_database = False" "attendance new_database = []"
  "attendance_seq new_database = 0" "people new_database = []"
  "next_rowid new_database = 1"
  by (simp_all add: new_database_def next_rowid_def)

lemma sqlite_integer_small: "sqlite_integer 1" "sqlite_integer 2"
  by (simp_all add: sqlite_integer_def)

lemma first_call_new_database:
  assumes "sqlite_integer pid"
  shows "mark_attendance new_database pid ti now today False =
     (\<lparr>people = [], attendance =
          [\<lparr>a_id = 1, person_id = pid, date = today, time_in = Some (supplied ti now),
            time_out = None, status = ''present''\<rparr>], attendance_seq = 1, conn_closed = False\<rparr>, True)"
proof -
  have "mark_attendance new_database pid ti now today False =
     (new_database\<lparr>attendance := attendance new_database @
            [\<lparr>a_id = next_rowid new_database, person_id = pid, date = today,
              time_in = Some (supplied ti now), time_out = None, status = ''present''\<rparr>],
          attendance_seq := next_rowid new_database\<rparr>, True)"
    using assms by (intro mark_attendance_new) (simp_all add: new_database_simps rows_for_def sqlite_integer_small)
  then show ?thesis
    by (simp add: new_database_def next_rowid_def)
qed

lemma next_rowid_after_first_call:
  "next_rowid \<lparr>people = [], attendance =
          [\<lparr>a_id = 1, person_id = pid, date = today, time_in = t_in,
            time_out = t_out, status = st\<rparr>], attendance_seq = 1, conn_closed = False\<rparr> = 2"
  by (simp add: next_rowid_def)

theorem mark_attendance_one_record_per_person_and_date_witness:
  "(\<not> conn_closed new_database \<and> sqlite_integer 1 \<and> \<not> False \<and>
      rows_for 1 5 (attendance new_database) = [] \<and> sqlite_integer (next_rowid new_database)) \<and>
   mark_attendance new_database 1 (Some 900) 0 5 False =
     (\<lparr>people = [], attendance =
         [\<lparr>a_id = 1, person_id = 1, date = 5, time_in = Some 900, time_out = None,
           status = ''present''\<rparr>], attendance_seq = 1, conn_closed = False\<rparr>, True) \<and>
   mark_attendance new_database 1 None 990 5 False =
     (\<lparr>people = [], attendance =
         [\<lparr>a_id = 1, person_id = 1, date = 5, time_in = Some 990, time_out = None,
           status = ''present''\<rparr>], attendance_seq = 1, conn_closed = False\<rparr>, True) \<and>
   (\<not> conn_closed example_database \<and> sqlite_integer 2 \<and> \<not> False \<and>
      rows_for 2 6 (attendance example_database) = [] \<and>
      sqlite_integer (next_rowid example_database)) \<and>
   attendance (fst (mark_attendance example_database 2 None 915 6 False)) =
     attendance example_database @
       [\<lparr>a_id = 4, person_id = 2, date = 6, time_in = Some 915, time_out = None,
         status = ''present''\<rparr>] \<and>
   rows_for 1 5 (attendance (fst (mark_attendance new_database 1 (Some 900) 0 5 False))) \<noteq> [] \<and>
   map (\<lambda>r. (person_id r, date r))
     (attendance (fst (mark_attendance (fst (mark_attendance new_database 1 (Some 900) 0 5 False))
        1 (Some 950) 0 5 False))) = [(1, 5)] \<and>
   unique_person_date (attendance new_database) \<and>
   length (rows_for 1 5 (attendance (mark_attendance_calls new_database
      [(1, Some 900, 0, 5, False), (1, Some 950, 0, 5, True), (1, None, 990, 5, False)]))) \<le> 1"
proof -
  let ?db1 = "fst (mark_attendance new_database 1 (Some 900) 0 5 False)"
  let ?calls = "[(1, Some 900, 0, 5, False), (1, Some 950, 0, 5, True), (1, None, 990, 5, False)]"
  have h1: "\<not> conn_closed new_database \<and> sqlite_integer 1 \<and> \<not> False \<and>
      rows_for 1 5 (attendance new_database) = [] \<and> sqlite_integer (next_rowid new_database)"
    by (simp add: new_database_simps rows_for_def sqlite_integer_small)
  have h2: "rows_for 1 5 (attendance ?db1) \<noteq> []"
    by (simp add: first_call_new_database next_rowid_after_first_call sqlite_integer_small
        rows_for_def)
  have h3: "unique_person_date (attendance new_database)"
    by (simp add: new_database_simps unique_person_date_def)
  have l1: "map (\<lambda>r. (person_id r, date r)) (attendance ?db1) = [(1, 5)]"
    by (simp add: first_call_new_database next_rowid_after_first_call sqlite_integer_small)
  have c1: "mark_attendance new_database 1 (Some 900) 0 5 False =
     (\<lparr>people = [], attendance =
         [\<lparr>a_id = 1, person_id = 1, date = 5, time_in = Some 900, time_out = None,
           status = ''present''\<rparr>], attendance_seq = 1, conn_closed = False\<rparr>, True)"
    using h1 mark_attendance_one_record_per_person_and_date
      [of new_database 1 False 5 "Some 900" 0 "[]"]
    by (simp add: new_database_def next_rowid_def)
  have c2: "mark_attendance new_database 1 None 990 5 False =
     (\<lparr>people = [], attendance =
         [\<lparr>a_id = 1, person_id = 1, date = 5, time_in = Some 990, time_out = None,
           status = ''present''\<rparr>], attendance_seq = 1, conn_closed = False\<rparr>, True)"
    using h1 mark_attendance_one_record_per_person_and_date
      [of new_database 1 False 5 None 990 "[]"]
    by (simp add: new_database_def next_rowid_def)
  have nr: "next_rowid example_database = 4"
    by (simp add: next_rowid_def example_database_def)
  have h4: "\<not> conn_closed example_database \<and> sqlite_integer 2 \<and> \<not> False \<and>
      rows_for 2 6 (attendance example_database) = [] \<and>
      sqlite_integer (next_rowid example_database)"
    by (simp add: nr) (simp add: example_database_def rows_for_def sqlite_integer_def)
  have c5: "attendance (fst (mark_attendance example_database 2 None 915 6 False)) =
     attendance example_database @
       [\<lparr>a_id = 4, person_id = 2, date = 6, time_in = Some 915, time_out = None,
         status = ''present''\<rparr>]"
    using h4 mark_attendance_one_record_per_person_and_date
      [of example_database 2 False 6 None 915 "[]"]
    by (simp add: nr nr[unfolded next_rowid_def])
  have c3: "map (\<lambda>r. (person_id r, date r))
     (attendance (fst (mark_attendance ?db1 1 (Some 950) 0 5 False))) = [(1, 5)]"
    using h2 l1 mark_attendance_one_record_per_person_and_date
      [of ?db1 1 False 5 "Some 950" 0 "[]"]
    by simp
  have c4: "length (rows_for 1 5 (attendance (mark_attendance_calls new_database ?calls))) \<le> 1"
    using h3 mark_attendance_one_record_per_person_and_date
      [of new_database 1 False 5 None 0 ?calls]
    by blast
  show ?thesis by (intro conjI h1 h2 h3 h4 c1 c2 c3 c4 c5)
qed

text \<open>
  Claim C2. Take a call of \<^verbatim>\<open>mark_attendance\<close> that can reach the store (open connection,
  \<^verbatim>\<open>person_id\<close> an integer SQLite can bind, file not locked). For a person and a date that
  already have a row, it returns \<^verbatim>\<open>True\<close> and changes nothing but the \<^verbatim>\<open>time_out\<close> of
  that pair's rows, which becomes the timestamp argument (the clock reading when the
  argument is \<^verbatim>\<open>None\<close>); \<^verbatim>\<open>time_in\<close>, the status and every other row stay as they were.
  So two such calls for a pair without a row, with a rowid left for one and with any two
  timestamps in any order, leave
  one row whose \<^verbatim>\<open>time_in\<close> is the first call's timestamp and whose \<^verbatim>\<open>time_out\<close> is the
  second call's.
\<close>

theorem mark_attendance_later_call_sets_time_out_only:
  "\<not> conn_closed db \<and> sqlite_integer pid \<and> \<not> locked \<longrightarrow>
     (rows_for pid today (attendance db) \<noteq> [] \<longrightarrow>
        mark_attendance db pid time_in_arg now today locked =
          (db\<lparr>attendance :=
                 map (\<lambda>r. if person_id r = pid \<and> date r = today
                           then r\<lparr>time_out :=
                                   Some (case time_in_arg of None \<Rightarrow> now | Some t \<Rightarrow> t)\<rparr>
                           else r)
                     (attendance db)\<rparr>, True)) \<and>
     (rows_for pid today (attendance db) = [] \<and> sqlite_integer (fold max (map a_id (attendance db)) (attendance_seq db) + 1) \<longrightarrow>
        rows_for pid today (attendance (mark_attendance_calls db
            [(pid, first_arg, now1, today, False), (pid, second_arg, now2, today, False)])) =
          [\<lparr>a_id = fold max (map a_id (attendance db)) (attendance_seq db) + 1, person_id = pid, date = today,
            time_in = Some (case first_arg of None \<Rightarrow> now1 | Some t \<Rightarrow> t),
            time_out = Some (case second_arg of None \<Rightarrow> now2 | Some t \<Rightarrow> t),
            status = ''present''\<rparr>])"
proof (intro impI conjI)
  assume "\<not> conn_closed db \<and> sqlite_integer pid \<and> \<not> locked"
    and "rows_for pid today (attendance db) \<noteq> []"
  then show "mark_attendance db pid time_in_arg now today locked =
          (db\<lparr>attendance :=
                 map (\<lambda>r. if person_id r = pid \<and> date r = today
                           then r\<lparr>time_out :=
                                   Some (case time_in_arg of None \<Rightarrow> now | Some t \<Rightarrow> t)\<rparr>
                           else r)
                     (attendance db)\<rparr>, True)"
    using mark_attendance_seen[of db pid locked today time_in_arg now]
    by (simp add: supplied_def)
next
  assume op: "\<not> conn_closed db \<and> sqlite_integer pid \<and> \<not> locked"
    and none': "rows_for pid today (attendance db) = [] \<and>
      sqlite_integer (fold max (map a_id (attendance db)) (attendance_seq db) + 1)"
  then have none: "rows_for pid today (attendance db) = []"
    and room: "sqlite_integer (next_rowid db)" by (simp_all add: next_rowid_def)
  let ?row = "\<lparr>a_id = next_rowid db, person_id = pid, date = today,
            time_in = Some (supplied first_arg now1), time_out = None, status = ''present''\<rparr>"
  let ?db1 = "db\<lparr>attendance := attendance db @ [?row], attendance_seq := next_rowid db\<rparr>"
  have first: "mark_attendance db pid first_arg now1 today False = (?db1, True)"
    using op none room by (simp add: mark_attendance_new)
  have some: "rows_for pid today (attendance ?db1) \<noteq> []"
    by (simp add: rows_for_def)
  have second: "mark_attendance ?db1 pid second_arg now2 today False =
     (?db1\<lparr>attendance :=
             map (\<lambda>r. if person_id r = pid \<and> date r = today
                       then r\<lparr>time_out := Some (supplied second_arg now2)\<rparr> else r)
                 (attendance ?db1)\<rparr>, True)"
    using op some by (intro mark_attendance_seen) simp_all
  have old: "rows_for pid today
      (map (\<lambda>r. if person_id r = pid \<and> date r = today
                 then r\<lparr>time_out := Some (supplied second_arg now2)\<rparr> else r) (attendance db)) = []"
    using none by (auto simp: rows_for_def filter_empty_conv)
  have "rows_for pid today (attendance (mark_attendance_calls db
            [(pid, first_arg, now1, today, False), (pid, second_arg, now2, today, False)])) =
          [\<lparr>a_id = next_rowid db, person_id = pid, date = today,
            time_in = Some (supplied first_arg now1),
            time_out = Some (supplied second_arg now2), status = ''present''\<rparr>]"
    using old by (simp add: first second rows_for_append) (simp add: rows_for_def)
  then show "rows_for pid today (attendance (mark_attendance_calls db
            [(pid, first_arg, now1, today, False), (pid, second_arg, now2, today, False)])) =
          [\<lparr>a_id = fold max (map a_id (attendance db)) (attendance_seq db) + 1, person_id = pid, date = today,
            time_in = Some (case first_arg of None \<Rightarrow> now1 | Some t \<Rightarrow> t),
            time_out = Some (case second_arg of None \<Rightarrow> now2 | Some t \<Rightarrow> t),
            status = ''present''\<rparr>]"
    by (simp add: supplied_def next_rowid_def)
qed

theorem mark_attendance_later_call_sets_time_out_only_witness:
  "(\<not> conn_closed new_database \<and> sqlite_integer 1 \<and> \<not> False) \<and>
   (rows_for 1 5 (attendance new_database) = [] \<and> sqlite_integer (next_rowid new_database)) \<and>
   rows_for 1 5 (attendance (mark_attendance_calls new_database
       [(1, Some 950, 0, 5, False), (1, Some 900, 0, 5, False)])) =
     [\<lparr>a_id = 1, person_id = 1, date = 5, time_in = Some 950, time_out = Some 900,
       status = ''present''\<rparr>] \<and>
   rows_for 1 5 (attendance (mark_attendance_calls new_database
       [(1, None, 900, 5, False), (1, None, 950, 5, False)])) =
     [\<lparr>a_id = 1, person_id = 1, date = 5, time_in = Some 900, time_out = Some 950,
       status = ''present''\<rparr>] \<and>
   rows_for 1 5 (attendance (fst (mark_attendance new_database 1 (Some 950) 0 5 False))) \<noteq> [] \<and>
   mark_attendance (fst (mark_attendance new_database 1 (Some 950) 0 5 False)) 1 None 990 5 False =
     (\<lparr>people = [], attendance =
          [\<lparr>a_id = 1, person_id = 1, date = 5, time_in = Some 950, time_out = Some 990,
            status = ''present''\<rparr>], attendance_seq = 1, conn_closed = False\<rparr>, True)"
proof -
  let ?db1 = "fst (mark_attendance new_database 1 (Some 950) 0 5 False)"
  have h1: "\<not> conn_closed new_database \<and> sqlite_integer 1 \<and> \<not> False"
    "rows_for 1 5 (attendance new_database) = [] \<and> sqlite_integer (next_rowid new_database)"
    by (simp_all add: new_database_simps rows_for_def sqlite_integer_small)
  have h2: "\<not> conn_closed ?db1 \<and> sqlite_integer 1 \<and> \<not> False"
    "rows_for 1 5 (attendance ?db1) \<noteq> []"
    by (simp_all add: first_call_new_database next_rowid_after_first_call sqlite_integer_small
        rows_for_def)
  from h1 h2
    mark_attendance_later_call_sets_time_out_only
      [of new_database 1 False 5 None 0 "Some 950" 0 "Some 900" 0]
    mark_attendance_later_call_sets_time_out_only
      [of new_database 1 False 5 None 0 None 900 None 950]
    mark_attendance_later_call_sets_time_out_only
      [of ?db1 1 False 5 None 990 None 0 None 0]
  show ?thesis
    by (simp add: new_database_simps first_call_new_database next_rowid_after_first_call
        sqlite_integer_small supplied_def)
qed

subsection \<open>A unique-constraint violation on the INSERT\<close>

lemma mark_attendance_interleaved_Nil:
  "mark_attendance_interleaved [] db pid ti now today locked =
     mark_attendance db pid ti now today locked"
  by (simp add: mark_attendance_interleaved_def mark_attendance_def Let_def split: sum.splits)

text \<open>
  Claim C7. The claim says that a call whose INSERT raises the unique-constraint violation
  goes on as an update and reports no failure. On a new database, let another worker's call
  for person 1 on day 5 complete between this call's SELECT and its INSERT: the INSERT raises
  \<^verbatim>\<open>IntegrityError\<close>, the call returns \<^verbatim>\<open>False\<close>, and the row keeps \<^verbatim>\<open>time_out\<close>
  \<^verbatim>\<open>None\<close>.
\<close>

theorem mark_attendance_unique_violation_not_retried_counterexample:
  "select_attendance new_database 1 5 = Inr None \<and>
   insert_attendance (mark_attendance_calls new_database [(1, Some 900, 0, 5, False)]) 1 5 950 =
     Inl IntegrityError \<and>
   mark_attendance_interleaved [(1, Some 900, 0, 5, False)] new_database 1 (Some 950) 0 5 False =
     (\<lparr>people = [], attendance =
          [\<lparr>a_id = 1, person_id = 1, date = 5, time_in = Some 900, time_out = None,
            status = ''present''\<rparr>], attendance_seq = 1, conn_closed = False\<rparr>, False)"
  by (simp add: mark_attendance_interleaved_def select_attendance_def insert_attendance_def
      first_call_new_database next_rowid_after_first_call sqlite_integer_small
      new_database_simps rows_for_def supplied_def
      sqlite_integer_small next_rowid_after_first_call)

text \<open>
  Claim C7, amended. Whenever the SELECT of a call finds no row and its INSERT raises the
  unique-constraint violation, \<^verbatim>\<open>mark_attendance\<close> returns \<^verbatim>\<open>False\<close> and leaves the
  store as the other workers left it: the handler \<^verbatim>\<open>except Exception\<close> reports the
  failure, and no update is tried.
\<close>

theorem mark_attendance_unique_violation_returns_False:
  assumes "select_attendance db pid today = Inr None"
    and "insert_attendance (mark_attendance_calls db others) pid today (supplied time_in_arg now)
           = Inl IntegrityError"
  shows "mark_attendance_interleaved others db pid time_in_arg now today locked =
           (mark_attendance_calls db others, False)"
  using assms by (cases locked) (simp_all add: mark_attendance_interleaved_def Let_def)

theorem mark_attendance_unique_violation_returns_False_witness:
  "select_attendance new_database 1 5 = Inr None \<and>
   insert_attendance (mark_attendance_calls new_database [(1, Some 900, 0, 5, False)]) 1 5
       (supplied (Some 950) 0) = Inl IntegrityError \<and>
   mark_attendance_interleaved [(1, Some 900, 0, 5, False)] new_database 1 (Some 950) 0 5 False =
     (mark_attendance_calls new_database [(1, Some 900, 0, 5, False)], False)"
proof -
  have h1: "select_attendance new_database 1 5 = Inr None"
    by (simp add: select_attendance_def new_database_simps rows_for_def sqlite_integer_small)
  have h2: "insert_attendance (mark_attendance_calls new_database [(1, Some 900, 0, 5, False)]) 1 5
       (supplied (Some 950) 0) = Inl IntegrityError"
    by (simp add: insert_attendance_def first_call_new_database next_rowid_after_first_call
        sqlite_integer_small rows_for_def)
  from h1 h2 mark_attendance_unique_violation_returns_False [OF h1 h2, of False]
  show ?thesis by simp
qed

subsection \<open>Removing a person\<close>

lemma filter_key_remove1:
  "distinct (map f xs) \<Longrightarrow> p \<in> set xs \<Longrightarrow> filter (\<lambda>q. f q \<noteq> f p) xs = remove1 p xs"
proof (induction xs)
  case Nil
  then show ?case by simp
next
  case (Cons x xs)
  show ?case
  proof (cases "x = p")
    case True
    from Cons.prems(1) True have "f p \<notin> f ` set xs" by simp
    then have "\<forall>q \<in> set xs. f q \<noteq> f p" by (metis imageI)
    then have "filter (\<lambda>q. f q \<noteq> f p) xs = xs" by (simp add: filter_id_conv)
    with True show ?thesis by simp
  next
    case False
    with Cons.prems have "p \<in> set xs" "f x \<noteq> f p" by (auto simp: image_iff)
    with Cons show ?thesis using False by simp
  qed
qed

lemma get_person_id_absent:
  "filter (\<lambda>p. p_name p = name) (people db) = [] \<Longrightarrow> get_person_id db name \<noteq> Inr (Some pid)"
  by (simp add: get_person_id_def)

lemma filter_key_single:
  "distinct (map f xs) \<Longrightarrow> p \<in> set xs \<Longrightarrow> filter (\<lambda>q. f q = f p) xs = [p]"
proof (induction xs)
  case Nil
  then show ?case by simp
next
  case (Cons x xs)
  show ?case
  proof (cases "x = p")
    case True
    from Cons.prems(1) True have "f p \<notin> f ` set xs" by simp
    then have "\<forall>q \<in> set xs. f q \<noteq> f p" by (metis imageI)
    then have "filter (\<lambda>q. f q = f p) xs = []" by (simp add: filter_empty_conv)
    with True show ?thesis by simp
  next
    case False
    with Cons.prems have "p \<in> set xs" "f x \<noteq> f p" by (auto simp: image_iff)
    with Cons show ?thesis by simp
  qed
qed

lemma get_person_id_present:
  assumes "\<not> conn_closed db" "distinct (map p_name (people db))" "p \<in> set (people db)"
  shows "get_person_id db (p_name p) = Inr (Some (p_id p))"
  using assms by (simp add: get_person_id_def filter_key_single)

text \<open>
  Claim C10. For a name that no row of the people table carries, \<^verbatim>\<open>remove_person\<close>
  returns \<^verbatim>\<open>False\<close> and changes neither table. For the name of a stored person, on an
  open connection and a people table that satisfies its PRIMARY KEY and UNIQUE(name)
  constraints, it returns \<^verbatim>\<open>True\<close>, removes exactly that person's row and removes
  exactly the attendance rows of that person's id.
\<close>

theorem remove_person_unknown_or_known:
  "(filter (\<lambda>q. p_name q = name) (people db) = [] \<longrightarrow> remove_person db name = (db, False)) \<and>
   (\<not> conn_closed db \<and> distinct (map p_id (people db)) \<and> distinct (map p_name (people db)) \<and>
      p \<in> set (people db) \<longrightarrow>
      remove_person db (p_name p) =
        (db\<lparr>attendance := filter (\<lambda>r. person_id r \<noteq> p_id p) (attendance db),
            people := remove1 p (people db)\<rparr>, True))"
proof (intro conjI impI)
  assume "filter (\<lambda>q. p_name q = name) (people db) = []"
  then show "remove_person db name = (db, False)"
    by (simp add: remove_person_def get_person_id_def)
next
  assume a: "\<not> conn_closed db \<and> distinct (map p_id (people db)) \<and>
    distinct (map p_name (people db)) \<and> p \<in> set (people db)"
  then have "get_person_id db (p_name p) = Inr (Some (p_id p))"
    by (simp add: get_person_id_present)
  moreover from a have "filter (\<lambda>q. p_id q \<noteq> p_id p) (people db) = remove1 p (people db)"
    by (simp add: filter_key_remove1)
  ultimately show "remove_person db (p_name p) =
        (db\<lparr>attendance := filter (\<lambda>r. person_id r \<noteq> p_id p) (attendance db),
            people := remove1 p (people db)\<rparr>, True)"
    by (simp add: remove_person_def)
qed

theorem remove_person_unknown_or_known_witness:
  "filter (\<lambda>q. p_name q = ''Carol'') (people example_database) = [] \<and>
   remove_person example_database ''Carol'' = (example_database, False) \<and>
   (\<not> conn_closed example_database \<and> distinct (map p_id (people example_database)) \<and>
      distinct (map p_name (people example_database)) \<and> alice \<in> set (people example_database)) \<and>
   remove_person example_database ''Alice'' =
     (\<lparr>people = [bob],
       attendance =
        [\<lparr>a_id = 2, person_id = 2, date = 5, time_in = Some 910, time_out = Some 950,
          status = ''present''\<rparr>],
       attendance_seq = 3, conn_closed = False\<rparr>, True)"
proof -
  have h1: "filter (\<lambda>q. p_name q = ''Carol'') (people example_database) = []"
    by (simp add: example_database_def alice_def bob_def)
  have h2: "\<not> conn_closed example_database \<and> distinct (map p_id (people example_database)) \<and>
      distinct (map p_name (people example_database)) \<and> alice \<in> set (people example_database)"
    by (simp add: example_database_def alice_def bob_def)
  have n: "p_name alice = ''Alice''" "p_id alice = 1" "alice \<noteq> bob"
    by (simp_all add: alice_def bob_def)
  from h1 h2 remove_person_unknown_or_known [of "''Carol''" example_database alice]
  show ?thesis
    by (simp add: n) (simp add: example_database_def n)
qed

section \<open>Properties of the matcher\<close>

lemma first_min_index_less: "xs \<noteq> [] \<Longrightarrow> first_min_index xs < length xs"
  by (induction xs rule: first_min_index.induct) (auto simp: Let_def)

lemma first_min_index_le:
  "j < length xs \<Longrightarrow> xs ! first_min_index xs \<le> xs ! j"
proof (induction xs arbitrary: j rule: first_min_index.induct)
  case 1
  then show ?case by simp
next
  case (2 x)
  then show ?case by simp
next
  case (3 x y ys)
  let ?k = "first_min_index (y # ys)"
  show ?case
  proof (cases j)
    case 0
    then show ?thesis by (auto simp: Let_def)
  next
    case (Suc i)
    with "3.prems" have i: "i < length (y # ys)" by simp
    from "3.IH"[OF i] have le: "(y # ys) ! ?k \<le> (y # ys) ! i" .
    show ?thesis
    proof (cases "x \<le> (y # ys) ! ?k")
      case True
      with le Suc show ?thesis by (simp add: Let_def)
    next
      case False
      with le Suc show ?thesis by (simp add: Let_def)
    qed
  qed
qed

lemma first_min_index_first:
  "j < first_min_index xs \<Longrightarrow> xs ! first_min_index xs < xs ! j"
proof (induction xs arbitrary: j rule: first_min_index.induct)
  case 1
  then show ?case by simp
next
  case (2 x)
  then show ?case by simp
next
  case (3 x y ys)
  let ?k = "first_min_index (y # ys)"
  show ?case
  proof (cases "x \<le> (y # ys) ! ?k")
    case True
    with "3.prems" show ?thesis by (simp add: Let_def)
  next
    case False
    show ?thesis
    proof (cases j)
      case 0
      with False show ?thesis by (simp add: Let_def)
    next
      case (Suc i)
      with "3.prems" False have "i < ?k" by (simp add: Let_def)
      from "3.IH"[OF this] False Suc show ?thesis by (simp add: Let_def)
    qed
  qed
qed

lemma first_min_index_Min:
  assumes "xs \<noteq> []"
  shows "xs ! first_min_index xs = Min (set xs)"
proof (rule sym, rule Min_eqI)
  show "finite (set xs)" by simp
  show "xs ! first_min_index xs \<in> set xs"
    using assms by (simp add: first_min_index_less)
  fix y assume "y \<in> set xs"
  then obtain j where "j < length xs" "xs ! j = y" by (auto simp: in_set_conv_nth)
  then show "xs ! first_min_index xs \<le> y" using first_min_index_le by blast
qed

lemma face_distance_same_dimension:
  assumes "face_encodings \<noteq> []" "same_dimension face_encodings probe"
  shows "face_distance nrm face_encodings probe = Inr (map (\<lambda>e. nrm e probe) face_encodings)"
proof -
  from assms have hd: "length (hd face_encodings) = length probe"
    by (cases face_encodings) (simp_all add: same_dimension_def)
  with assms show ?thesis
    by (simp add: face_distance_def same_dimension_def Let_def)
qed

lemma face_distance_empty: "face_distance nrm [] probe = Inr []"
  by (simp add: face_distance_def)

text \<open>The matching code on a recognizer whose three lists are equally long.\<close>

lemma best_match_eq:
  assumes "known_face_encodings rec \<noteq> []" and "parallel_lists rec"
    and "same_dimension (known_face_encodings rec) probe"
  shows "best_match nrm rec probe =
     (let ds = map (\<lambda>e. nrm e probe) (known_face_encodings rec);
          k = first_min_index ds
      in if ds ! k \<le> tolerance rec
         then Inr (Some (known_face_ids rec ! k, known_face_names rec ! k, ds ! k))
         else Inr None)"
proof -
  let ?ds = "map (\<lambda>e. nrm e probe) (known_face_encodings rec)"
  let ?k = "first_min_index ?ds"
  have ne: "?ds \<noteq> []" using assms(1) by simp
  then have k: "?k < length (known_face_encodings rec)"
    using first_min_index_less[of ?ds] by simp
  have fd: "face_distance nrm (known_face_encodings rec) probe = Inr ?ds"
    using assms(1,3) by (rule face_distance_same_dimension)
  show ?thesis
    using assms(1,2) k ne
    by (simp add: best_match_def fd compare_faces_def argmin_def py_index_def Let_def
        parallel_lists_def)
qed

lemma parallel_lists_init: "parallel_lists (FaceRecognizer_init known_faces tol)"
  by (simp add: parallel_lists_def FaceRecognizer_init_def)

lemma best_match_init:
  assumes "known_faces \<noteq> []"
    and "same_dimension (map (\<lambda>face. snd (snd face)) known_faces) probe"
  shows "best_match nrm (FaceRecognizer_init known_faces tol) probe =
     (let ds = map (\<lambda>face. nrm (snd (snd face)) probe) known_faces;
          k = first_min_index ds
      in if ds ! k \<le> tol
         then Inr (Some (fst (known_faces ! k), fst (snd (known_faces ! k)), ds ! k))
         else Inr None)"
proof -
  let ?rec = "FaceRecognizer_init known_faces tol"
  let ?ds = "map (\<lambda>face. nrm (snd (snd face)) probe) known_faces"
  have ds: "map (\<lambda>e. nrm e probe) (known_face_encodings ?rec) = ?ds"
    by (simp add: FaceRecognizer_init_def comp_def)
  have "?ds \<noteq> []" using assms(1) by simp
  then have k: "first_min_index ?ds < length known_faces"
    using first_min_index_less[of ?ds] by simp
  have "best_match nrm ?rec probe =
     (let ds = map (\<lambda>e. nrm e probe) (known_face_encodings ?rec);
          k = first_min_index ds
      in if ds ! k \<le> tolerance ?rec
         then Inr (Some (known_face_ids ?rec ! k, known_face_names ?rec ! k, ds ! k))
         else Inr None)"
    using assms by (intro best_match_eq parallel_lists_init) (simp_all add: FaceRecognizer_init_def)
  then show ?thesis
    unfolding ds using k by (simp add: FaceRecognizer_init_def Let_def)
qed

lemma best_match_empty: "best_match nrm (FaceRecognizer_init [] tol) probe = Inr None"
  by (simp add: best_match_def compare_faces_def face_distance_empty FaceRecognizer_init_def)

lemma best_match_cache:
  "best_match nrm (rec\<lparr>recognized_today := S\<rparr>) probe = best_match nrm rec probe"
  by (simp add: best_match_def Let_def cong: sum.case_cong if_cong)

text \<open>The instances of the examples.\<close>

lemma euclidean_nonneg: "0 \<le> euclidean a b"
proof -
  have "0 \<le> sum_list (map (\<lambda>(x, y). (x - y)\<^sup>2) (zip a b))"
    by (rule sum_list_nonneg) auto
  then show ?thesis by (simp add: euclidean_def)
qed

lemma euclidean_self: "euclidean a a = 0"
proof -
  have "sum_list (map (\<lambda>(x, y). (x - y)\<^sup>2) (zip a a)) = 0"
    by (induction a) auto
  then show ?thesis by (simp add: euclidean_def)
qed

lemma euclidean_2: "euclidean [a, b] [c, d] = sqrt ((a - c)\<^sup>2 + (b - d)\<^sup>2)"
  by (simp add: euclidean_def)

lemma norm_like_euclidean: "norm_like euclidean"
  by (simp add: norm_like_def euclidean_nonneg euclidean_self)

lemma rounds_to_nearest_exact: "rounds_to_nearest exact"
  by (simp add: rounds_to_nearest_def exact_def mono_def)




text \<open>
  Claim C5. A recognizer built from no known faces answers every probe, at every tolerance,
  with \<^verbatim>\<open>person_id = None\<close>, the name \<^verbatim>\<open>Unknown\<close> and confidence 0, for one face and for
  all the faces of a frame, and raises nothing.
\<close>

theorem empty_registry_rejects_every_probe:
  "best_match nrm (FaceRecognizer_init [] tol) probe = Inr None \<and>
   recognize_face nrm rnd (FaceRecognizer_init [] tol) probe loc =
     Inr \<lparr>res_person_id = None, res_name = ''Unknown'', res_location = loc, res_confidence = 0\<rparr> \<and>
   recognize_face_from_frame nrm rnd (FaceRecognizer_init [] tol) faces =
     Inr (map (\<lambda>face. \<lparr>res_person_id = None, res_name = ''Unknown'', res_location = snd face,
                        res_confidence = 0\<rparr>) faces)"
proof -
  have one: "recognize_face nrm rnd (FaceRecognizer_init [] tol) p l =
     Inr \<lparr>res_person_id = None, res_name = ''Unknown'', res_location = l, res_confidence = 0\<rparr>"
    for p l
    by (simp add: recognize_face_def best_match_empty)
  have "recognize_face_from_frame nrm rnd (FaceRecognizer_init [] tol) faces =
     Inr (map (\<lambda>face. \<lparr>res_person_id = None, res_name = ''Unknown'', res_location = snd face,
                        res_confidence = 0\<rparr>) faces)"
    by (induction faces) (auto simp: one)
  with one show ?thesis by (simp add: best_match_empty)
qed

theorem empty_registry_rejects_every_probe_witness:
  "recognize_face euclidean exact (FaceRecognizer_init [] (6 / 10)) [3, 4] (0, 0, 0, 0) =
     Inr \<lparr>res_person_id = None, res_name = ''Unknown'', res_location = (0, 0, 0, 0),
          res_confidence = 0\<rparr>"
  using empty_registry_rejects_every_probe
          [of euclidean "6 / 10" "[3, 4]" exact "(0, 0, 0, 0)" "[]"] by simp

text \<open>
  Claim C6. The claim says that among identities at the same least distance the one with
  the lowest id is selected. With Bob (id 2) listed before Alice (id 1), both with the
  encoding of the probe and so both at distance 0, the matcher answers Bob.
\<close>

theorem tie_break_lowest_id_counterexample:
  "face_distance euclidean (known_face_encodings
      (FaceRecognizer_init [(2, ''Bob'', [0, 0]), (1, ''Alice'', [0, 0])] (6 / 10))) [0, 0] =
     Inr [0, 0] \<and>
   recognize_face euclidean exact
       (FaceRecognizer_init [(2, ''Bob'', [0, 0]), (1, ''Alice'', [0, 0])] (6 / 10))
       [0, 0] (0, 0, 0, 0) =
     Inr \<lparr>res_person_id = Some 2, res_name = ''Bob'', res_location = (0, 0, 0, 0),
          res_confidence = 1\<rparr>"
proof -
  have sd: "same_dimension (map (\<lambda>face. snd (snd face))
      [(2::int, ''Bob'', [0, 0]), (1, ''Alice'', [0, 0])]) [0, 0]"
    by (simp add: same_dimension_def)
  have "face_distance euclidean (known_face_encodings
      (FaceRecognizer_init [(2, ''Bob'', [0, 0]), (1, ''Alice'', [0, 0])] (6 / 10))) [0, 0] =
     Inr [0, 0]"
    by (simp add: face_distance_def FaceRecognizer_init_def euclidean_2)
  moreover have "recognize_face euclidean exact
       (FaceRecognizer_init [(2, ''Bob'', [0, 0]), (1, ''Alice'', [0, 0])] (6 / 10))
       [0, 0] (0, 0, 0, 0) =
     Inr \<lparr>res_person_id = Some 2, res_name = ''Bob'', res_location = (0, 0, 0, 0),
          res_confidence = 1\<rparr>"
    by (simp add: recognize_face_def best_match_init[OF _ sd] Let_def euclidean_2 exact_def)
  ultimately show ?thesis by simp
qed

text \<open>
  Claim C6, amended. An accepted match is the first identity, in the order of the list the
  recognizer was built from, whose computed distance to the probe is the least one: every
  identity listed before it has a strictly greater computed distance. When that list is in
  ascending order of id, it is the lowest id among the identities at the least computed
  distance. The answer is a function of the list, the tolerance and the probe alone.
\<close>

theorem tie_break_first_in_snapshot_order:
  assumes "best_match nrm (FaceRecognizer_init known_faces tol) probe = Inr (Some (pid, name, d))"
    and "same_dimension (map (\<lambda>face. snd (snd face)) known_faces) probe"
  shows "\<exists>k < length known_faces.
           fst (known_faces ! k) = pid \<and> fst (snd (known_faces ! k)) = name \<and>
           nrm (snd (snd (known_faces ! k))) probe = d \<and>
           d = Min (set (map (\<lambda>face. nrm (snd (snd face)) probe) known_faces)) \<and>
           (\<forall>j < k. d < nrm (snd (snd (known_faces ! j))) probe) \<and>
           (sorted_wrt (<) (map fst known_faces) \<longrightarrow>
              (\<forall>j < length known_faces.
                 nrm (snd (snd (known_faces ! j))) probe = d \<longrightarrow> pid \<le> fst (known_faces ! j)))"
proof -
  let ?ds = "map (\<lambda>face. nrm (snd (snd face)) probe) known_faces"
  let ?k = "first_min_index ?ds"
  have kf: "known_faces \<noteq> []"
    using assms(1) by (auto simp: best_match_empty)
  then have ne: "?ds \<noteq> []" by simp
  then have k: "?k < length known_faces" using first_min_index_less[of ?ds] by simp
  have m: "?ds ! ?k = Min (set ?ds)" using ne by (rule first_min_index_Min)
  have bm: "best_match nrm (FaceRecognizer_init known_faces tol) probe =
     (if ?ds ! ?k \<le> tol
      then Inr (Some (fst (known_faces ! ?k), fst (snd (known_faces ! ?k)), ?ds ! ?k))
      else Inr None)"
    using best_match_init[OF kf assms(2), of nrm tol] by (simp add: Let_def)
  with assms(1) have sel: "fst (known_faces ! ?k) = pid" "fst (snd (known_faces ! ?k)) = name"
    "?ds ! ?k = d"
    by (simp_all split: if_splits)
  from sel(3) k have dk: "nrm (snd (snd (known_faces ! ?k))) probe = d" by simp
  have before: "d < nrm (snd (snd (known_faces ! j))) probe" if "j < ?k" for j
  proof -
    from that have "?ds ! ?k < ?ds ! j" by (rule first_min_index_first)
    with that k sel(3) show ?thesis by simp
  qed
  have low: "pid \<le> fst (known_faces ! j)"
    if s: "sorted_wrt (<) (map fst known_faces)" and j: "j < length known_faces"
      and e: "nrm (snd (snd (known_faces ! j))) probe = d" for j
  proof -
    have "\<not> j < ?k" using before[of j] e by auto
    then have "?k \<le> j" by simp
    show ?thesis
    proof (cases "?k = j")
      case True
      with sel(1) show ?thesis by simp
    next
      case False
      with \<open>?k \<le> j\<close> have "?k < j" by simp
      with s j have "map fst known_faces ! ?k < map fst known_faces ! j"
        by (simp add: sorted_wrt_iff_nth_less)
      with k j sel(1) show ?thesis by simp
    qed
  qed
  have "fst (known_faces ! ?k) = pid \<and> fst (snd (known_faces ! ?k)) = name \<and>
           nrm (snd (snd (known_faces ! ?k))) probe = d \<and>
           d = Min (set ?ds) \<and>
           (\<forall>j < ?k. d < nrm (snd (snd (known_faces ! j))) probe) \<and>
           (sorted_wrt (<) (map fst known_faces) \<longrightarrow>
              (\<forall>j < length known_faces.
                 nrm (snd (snd (known_faces ! j))) probe = d \<longrightarrow> pid \<le> fst (known_faces ! j)))"
    using sel(1,2) dk m sel(3) before low by simp
  then show ?thesis by (intro exI[of _ ?k] conjI[OF k])
qed

theorem tie_break_first_in_snapshot_order_witness:
  "best_match euclidean (FaceRecognizer_init [(1, ''Alice'', [0, 0]), (2, ''Bob'', [0, 0])] (6 / 10))
     [0, 0] = Inr (Some (1, ''Alice'', 0)) \<and>
   same_dimension (map (\<lambda>face. snd (snd face)) [(1::int, ''Alice'', [0, 0]), (2, ''Bob'', [0, 0])])
     [0, 0] \<and>
   sorted_wrt (<) (map fst [(1::int, ''Alice'', [0, 0 :: real]), (2, ''Bob'', [0, 0])]) \<and>
   (\<exists>k < length [(1::int, ''Alice'', [0, 0 :: real]), (2, ''Bob'', [0, 0])].
      fst ([(1::int, ''Alice'', [0, 0 :: real]), (2, ''Bob'', [0, 0])] ! k) = 1 \<and>
      (\<forall>j < k. 0 < euclidean (snd (snd ([(1::int, ''Alice'', [0, 0]), (2, ''Bob'', [0, 0])] ! j)))
         [0, 0]))"
proof -
  let ?kf = "[(1::int, ''Alice'', [0, 0 :: real]), (2, ''Bob'', [0, 0])]"
  have h2: "same_dimension (map (\<lambda>face. snd (snd face)) ?kf) [0, 0]"
    by (simp add: same_dimension_def)
  have h1: "best_match euclidean (FaceRecognizer_init ?kf (6 / 10)) [0, 0] =
      Inr (Some (1, ''Alice'', 0))"
    by (simp add: best_match_init[OF _ h2] Let_def euclidean_2)
  have h3: "sorted_wrt (<) (map fst ?kf)" by simp
  from tie_break_first_in_snapshot_order [OF h1 h2]
  have c: "\<exists>k < length ?kf. fst (?kf ! k) = 1 \<and>
      (\<forall>j < k. 0 < euclidean (snd (snd (?kf ! j))) [0, 0])"
    by blast
  show ?thesis by (intro conjI h1 h2 h3 c)
qed

text \<open>
  Claim C9. The claim says that the reported confidence lies in the interval from 0 to 1 for
  every probe and tolerance. With tolerance 3 and a probe at distance 2 from the only known
  face, the match is accepted and the confidence is \<open>- 1\<close>.
\<close>

theorem confidence_clamped_counterexample:
  "recognize_face euclidean exact (FaceRecognizer_init [(1, ''Alice'', [0, 0])] 3) [2, 0]
       (0, 0, 0, 0) =
     Inr \<lparr>res_person_id = Some 1, res_name = ''Alice'', res_location = (0, 0, 0, 0),
          res_confidence = - 1\<rparr>"
proof -
  have sd: "same_dimension (map (\<lambda>face. snd (snd face)) [(1::int, ''Alice'', [0, 0])]) [2, 0]"
    by (simp add: same_dimension_def)
  show ?thesis
    by (simp add: recognize_face_def best_match_init[OF _ sd] Let_def euclidean_2 exact_def)
qed

text \<open>
  Claim C9, amended. For every accepted match the reported confidence is the binary64
  difference of 1 and the least computed distance, with no clamping. The least computed
  distance is at most the tolerance, which is why the match is accepted; the confidence is
  computed afterwards. Rounding keeps the order, so the confidence is at most 1 and at
  least the rounded difference of 1 and the tolerance: it lies between 0 and 1 whenever the
  tolerance is at most 1.
\<close>

theorem confidence_is_one_minus_min_distance:
  assumes "recognize_face nrm rnd (FaceRecognizer_init known_faces tol) probe loc = Inr res"
    and "res_person_id res \<noteq> None"
    and "same_dimension (map (\<lambda>face. snd (snd face)) known_faces) probe"
    and "norm_like nrm" and "rounds_to_nearest rnd"
  shows "res_confidence res =
           rnd (1 - Min (set (map (\<lambda>face. nrm (snd (snd face)) probe) known_faces))) \<and>
         Min (set (map (\<lambda>face. nrm (snd (snd face)) probe) known_faces)) \<le> tol \<and>
         rnd (1 - tol) \<le> res_confidence res \<and> res_confidence res \<le> 1 \<and>
         (tol \<le> 1 \<longrightarrow> 0 \<le> res_confidence res)"
proof -
  let ?ds = "map (\<lambda>face. nrm (snd (snd face)) probe) known_faces"
  let ?k = "first_min_index ?ds"
  from assms(5) have mono: "\<And>x y. x \<le> y \<Longrightarrow> rnd x \<le> rnd y" and r0: "rnd 0 = 0" and r1: "rnd 1 = 1"
    by (simp_all add: rounds_to_nearest_def mono_def)
  have kf: "known_faces \<noteq> []"
    using assms(1,2) by (auto simp: recognize_face_def best_match_empty)
  then have ne: "?ds \<noteq> []" by simp
  have m: "?ds ! ?k = Min (set ?ds)" using ne by (rule first_min_index_Min)
  have pos: "0 \<le> ?ds ! ?k"
    using first_min_index_less[OF ne] assms(4) by (simp add: norm_like_def)
  have bm: "best_match nrm (FaceRecognizer_init known_faces tol) probe =
     (if ?ds ! ?k \<le> tol
      then Inr (Some (fst (known_faces ! ?k), fst (snd (known_faces ! ?k)), ?ds ! ?k))
      else Inr None)"
    using best_match_init[OF kf assms(3), of nrm tol] by (simp add: Let_def)
  have acc: "?ds ! ?k \<le> tol"
  proof (rule ccontr)
    assume "\<not> ?ds ! ?k \<le> tol"
    with bm assms(1) have "res_person_id res = None" by (auto simp: recognize_face_def)
    with assms(2) show False by simp
  qed
  with bm assms(1) have conf: "res_confidence res = rnd (1 - ?ds ! ?k)"
    by (auto simp: recognize_face_def)
  have upper: "rnd (1 - ?ds ! ?k) \<le> 1"
    using mono[of "1 - ?ds ! ?k" 1] pos r1 by simp
  have lower: "rnd (1 - tol) \<le> rnd (1 - ?ds ! ?k)"
    using mono[of "1 - tol" "1 - ?ds ! ?k"] acc by simp
  have zero: "0 \<le> rnd (1 - ?ds ! ?k)" if "tol \<le> 1"
    using mono[of 0 "1 - ?ds ! ?k"] acc that r0 by simp
  from conf acc m upper lower zero show ?thesis by simp
qed

theorem confidence_is_one_minus_min_distance_witness:
  "recognize_face euclidean exact (FaceRecognizer_init [(1, ''Alice'', [0, 0])] 1) [1, 0]
       (0, 0, 0, 0) =
     Inr \<lparr>res_person_id = Some 1, res_name = ''Alice'', res_location = (0, 0, 0, 0),
          res_confidence = 0\<rparr> \<and>
   res_person_id \<lparr>res_person_id = Some 1, res_name = ''Alice'', res_location = (0, 0, 0, 0),
          res_confidence = 0\<rparr> \<noteq> None \<and>
   same_dimension (map (\<lambda>face. snd (snd face)) [(1::int, ''Alice'', [0, 0])]) [1, 0] \<and>
   norm_like euclidean \<and> rounds_to_nearest exact \<and>
   Min (set (map (\<lambda>face. euclidean (snd (snd face)) [1, 0]) [(1::int, ''Alice'', [0, 0])])) \<le> 1 \<and>
   (0::real) = exact (1 - Min (set (map (\<lambda>face. euclidean (snd (snd face)) [1, 0])
      [(1::int, ''Alice'', [0, 0])])))"
proof -
  let ?res = "\<lparr>res_person_id = Some 1, res_name = ''Alice'', res_location = (0, 0, 0, 0),
          res_confidence = 0\<rparr>"
  have h3: "same_dimension (map (\<lambda>face. snd (snd face)) [(1::int, ''Alice'', [0, 0])]) [1, 0]"
    by (simp add: same_dimension_def)
  have h1: "recognize_face euclidean exact (FaceRecognizer_init [(1, ''Alice'', [0, 0])] 1) [1, 0]
      (0, 0, 0, 0) = Inr ?res"
    by (simp add: recognize_face_def best_match_init[OF _ h3] Let_def euclidean_2 exact_def)
  have h2: "res_person_id ?res \<noteq> None" by simp
  from confidence_is_one_minus_min_distance
         [OF h1 h2 h3 norm_like_euclidean rounds_to_nearest_exact]
       h1 h2 h3 norm_like_euclidean rounds_to_nearest_exact
  show ?thesis by simp
qed

section \<open>Properties of the recognition cache\<close>

lemma accepted_as_cache:
  "accepted_as nrm (rec\<lparr>recognized_today := S\<rparr>) pid = accepted_as nrm rec pid"
  by (simp add: fun_eq_iff accepted_as_def best_match_cache)

lemma accepted_as_Some:
  "best_match nrm rec (fst face) = Inr (Some (pid, name, d)) \<Longrightarrow>
   accepted_as nrm rec p face = (p = pid)"
  by (auto simp: accepted_as_def)

lemma accepted_as_None:
  "best_match nrm rec (fst face) = Inr None \<Longrightarrow> accepted_as nrm rec p face = False"
  by (simp add: accepted_as_def)

text \<open>The matching code raises nothing on a probe of the dimension of the known encodings.\<close>

lemma best_match_returns:
  assumes "parallel_lists rec" "same_dimension (known_face_encodings rec) probe"
  shows "\<exists>r. best_match nrm rec probe = Inr r"
proof (cases "known_face_encodings rec = []")
  case True
  then show ?thesis
    by (simp add: best_match_def compare_faces_def face_distance_empty)
next
  case False
  then show ?thesis
    using best_match_eq[OF False assms, of nrm] by (simp add: Let_def)
qed

lemma replay_Nil: "replay callback s [] = s"
  by (simp add: replay_def)

lemma replay_Cons:
  "replay callback s ((pid, name, m) # calls) = replay callback (callback m s pid name) calls"
  by (simp add: replay_def)

lemma replay_record_call: "replay record_call calls0 calls = calls0 @ calls"
proof (induction calls arbitrary: calls0)
  case Nil
  then show ?case by (simp add: replay_Nil)
next
  case (Cons c calls)
  obtain pid name m where c: "c = (pid, name, m)" by (cases c) auto
  have step: "record_call m calls0 pid name = calls0 @ [(pid, name, m)]"
    by (simp add: record_call_def)
  have "replay record_call (calls0 @ [(pid, name, m)]) calls = (calls0 @ [(pid, name, m)]) @ calls"
    by (rule Cons.IH)
  then show ?case unfolding c by (simp add: replay_Cons step)
qed

text \<open>
  A whole session: the calls the callback receives are the same for every callback, each
  identity is in them once at most, and the cache grows by the identities in them.
\<close>

lemma webcam_faces_calls:
  assumes "parallel_lists rec"
    and "list_all (\<lambda>face. same_dimension (known_face_encodings rec) (fst face)) faces"
  shows "\<exists>cache calls.
      webcam_faces nrm (Some record_call) (rec, calls0) faces =
        Inr (rec\<lparr>recognized_today := cache\<rparr>, calls0 @ calls) \<and>
      webcam_faces nrm (Some callback) (rec, s) faces =
        Inr (rec\<lparr>recognized_today := cache\<rparr>, replay callback s calls) \<and>
      (\<forall>pid. count_list (map fst calls) pid =
         (if pid \<notin> recognized_today rec \<and> list_ex (accepted_as nrm rec pid) faces
          then 1 else 0)) \<and>
      (\<forall>pid. pid \<in> cache \<longleftrightarrow>
         pid \<in> recognized_today rec \<or> list_ex (accepted_as nrm rec pid) faces)"
  using assms
proof (induction faces arbitrary: rec s calls0)
  case Nil
  show ?case
    by (rule exI[of _ "recognized_today rec"], rule exI[of _ "[]"]) (simp add: replay_Nil)
next
  case (Cons face faces)
  from Cons.prems have dim: "same_dimension (known_face_encodings rec) (fst face)"
    and dims: "list_all (\<lambda>face. same_dimension (known_face_encodings rec) (fst face)) faces"
    by simp_all
  from best_match_returns[OF Cons.prems(1) dim, of nrm]
  obtain r where r: "best_match nrm rec (fst face) = Inr r" by blast
  show ?case
  proof (cases r)
    case None
    with r have bm: "best_match nrm rec (fst face) = Inr None" by simp
    from Cons.IH[OF Cons.prems(1) dims, of calls0 s]
    obtain cache calls where ih:
      "webcam_faces nrm (Some record_call) (rec, calls0) faces =
         Inr (rec\<lparr>recognized_today := cache\<rparr>, calls0 @ calls)"
      "webcam_faces nrm (Some callback) (rec, s) faces =
         Inr (rec\<lparr>recognized_today := cache\<rparr>, replay callback s calls)"
      "\<forall>pid. count_list (map fst calls) pid =
         (if pid \<notin> recognized_today rec \<and> list_ex (accepted_as nrm rec pid) faces
          then 1 else 0)"
      "\<forall>pid. pid \<in> cache \<longleftrightarrow>
         pid \<in> recognized_today rec \<or> list_ex (accepted_as nrm rec pid) faces"
      by blast
    show ?thesis
      by (rule exI[of _ cache], rule exI[of _ calls])
         (simp add: webcam_face_def bm ih accepted_as_None[OF bm])
  next
    case (Some match)
    obtain pid name d where match: "match = (pid, name, d)" by (cases match) auto
    with Some r have bm: "best_match nrm rec (fst face) = Inr (Some (pid, name, d))" by simp
    note acc = accepted_as_Some[OF bm]
    show ?thesis
    proof (cases "pid \<in> recognized_today rec")
      case True
      from Cons.IH[OF Cons.prems(1) dims, of calls0 s]
      obtain cache calls where ih:
        "webcam_faces nrm (Some record_call) (rec, calls0) faces =
           Inr (rec\<lparr>recognized_today := cache\<rparr>, calls0 @ calls)"
        "webcam_faces nrm (Some callback) (rec, s) faces =
           Inr (rec\<lparr>recognized_today := cache\<rparr>, replay callback s calls)"
        "\<forall>pid. count_list (map fst calls) pid =
           (if pid \<notin> recognized_today rec \<and> list_ex (accepted_as nrm rec pid) faces
            then 1 else 0)"
        "\<forall>pid. pid \<in> cache \<longleftrightarrow>
           pid \<in> recognized_today rec \<or> list_ex (accepted_as nrm rec pid) faces"
        by blast
      show ?thesis
        by (rule exI[of _ cache], rule exI[of _ calls])
           (use True in \<open>auto simp: webcam_face_def bm ih acc\<close>)
    next
      case False
      let ?rec = "rec\<lparr>recognized_today := insert pid (recognized_today rec)\<rparr>"
      have pl: "parallel_lists ?rec"
        using Cons.prems(1) by (simp add: parallel_lists_def)
      have dims': "list_all (\<lambda>face. same_dimension (known_face_encodings ?rec) (fst face)) faces"
        using dims by simp
      from Cons.IH[OF pl dims', of "calls0 @ [(pid, name, snd face)]"
          "callback (snd face) s pid name"]
      obtain cache calls where ih:
        "webcam_faces nrm (Some record_call) (?rec, calls0 @ [(pid, name, snd face)]) faces =
           Inr (?rec\<lparr>recognized_today := cache\<rparr>, (calls0 @ [(pid, name, snd face)]) @ calls)"
        "webcam_faces nrm (Some callback) (?rec, callback (snd face) s pid name) faces =
           Inr (?rec\<lparr>recognized_today := cache\<rparr>,
                replay callback (callback (snd face) s pid name) calls)"
        "\<forall>p. count_list (map fst calls) p =
           (if p \<notin> recognized_today ?rec \<and> list_ex (accepted_as nrm ?rec p) faces
            then 1 else 0)"
        "\<forall>p. p \<in> cache \<longleftrightarrow>
           p \<in> recognized_today ?rec \<or> list_ex (accepted_as nrm ?rec p) faces"
        by blast
      have run1: "webcam_faces nrm (Some record_call) (rec, calls0) (face # faces) =
          Inr (rec\<lparr>recognized_today := cache\<rparr>, calls0 @ (pid, name, snd face) # calls)"
        using False ih(1) by (simp add: webcam_face_def bm record_call_def)
      have run2: "webcam_faces nrm (Some callback) (rec, s) (face # faces) =
          Inr (rec\<lparr>recognized_today := cache\<rparr>,
               replay callback s ((pid, name, snd face) # calls))"
        using False ih(2) by (simp add: webcam_face_def bm replay_Cons)
      have cnt: "\<forall>p. count_list (map fst ((pid, name, snd face) # calls)) p =
           (if p \<notin> recognized_today rec \<and> list_ex (accepted_as nrm rec p) (face # faces)
            then 1 else 0)"
        using False ih(3) by (auto simp: acc accepted_as_cache)
      have mem: "\<forall>p. p \<in> cache \<longleftrightarrow>
           p \<in> recognized_today rec \<or> list_ex (accepted_as nrm rec p) (face # faces)"
        using ih(4) by (auto simp: acc accepted_as_cache)
      show ?thesis
        by (rule exI[of _ cache], rule exI[of _ "(pid, name, snd face) # calls"])
           (intro conjI run1 run2 cnt mem)
    qed
  qed
qed

text \<open>
  Claim C3. Take a callback and any session: any sequence of detected faces, of any
  identities and of unknown people, whose encodings have the dimension of the known ones.
  The session raises nothing; the callback receives the same calls as a callback that only
  records them; among those calls an identity occurs exactly once if it is not in
  \<^verbatim>\<open>recognized_today\<close> at the start (as in a new recognizer) and at least one face of the
  session is an accepted match of it, and never otherwise; afterwards the cache holds the
  identities it held and those accepted in the session, so a longer session adds no call
  for them. \<^verbatim>\<open>reset_recognition_cache()\<close> empties the cache and changes nothing else, so
  the next accepted match of the identity invokes the callback again.
\<close>

theorem recognition_callback_once_until_reset:
  assumes "parallel_lists rec"
    and "list_all (\<lambda>face. same_dimension (known_face_encodings rec) (fst face)) faces"
  shows "\<exists>cache calls.
      webcam_faces nrm (Some record_call) (rec, []) faces =
        Inr (rec\<lparr>recognized_today := cache\<rparr>, calls) \<and>
      webcam_faces nrm (Some callback) (rec, s) faces =
        Inr (rec\<lparr>recognized_today := cache\<rparr>, replay callback s calls) \<and>
      (\<forall>pid. count_list (map fst calls) pid =
         (if pid \<notin> recognized_today rec \<and> list_ex (accepted_as nrm rec pid) faces
          then 1 else 0)) \<and>
      (\<forall>pid. pid \<in> cache \<longleftrightarrow>
         pid \<in> recognized_today rec \<or> list_ex (accepted_as nrm rec pid) faces) \<and>
      reset_recognition_cache (rec\<lparr>recognized_today := cache\<rparr>) = rec\<lparr>recognized_today := {}\<rparr>"
proof -
  from webcam_faces_calls[OF assms, of nrm "[]" callback s]
  obtain cache calls where c:
    "webcam_faces nrm (Some record_call) (rec, []) faces =
       Inr (rec\<lparr>recognized_today := cache\<rparr>, [] @ calls)"
    "webcam_faces nrm (Some callback) (rec, s) faces =
       Inr (rec\<lparr>recognized_today := cache\<rparr>, replay callback s calls)"
    "\<forall>pid. count_list (map fst calls) pid =
       (if pid \<notin> recognized_today rec \<and> list_ex (accepted_as nrm rec pid) faces
        then 1 else 0)"
    "\<forall>pid. pid \<in> cache \<longleftrightarrow>
       pid \<in> recognized_today rec \<or> list_ex (accepted_as nrm rec pid) faces"
    by blast
  have r: "reset_recognition_cache (rec\<lparr>recognized_today := cache\<rparr>) =
      rec\<lparr>recognized_today := {}\<rparr>"
    by (simp add: reset_recognition_cache_def)
  from c(1) have c1: "webcam_faces nrm (Some record_call) (rec, []) faces =
       Inr (rec\<lparr>recognized_today := cache\<rparr>, calls)" by simp
  show ?thesis
    by (rule exI[of _ cache], rule exI[of _ calls]) (intro conjI c1 c(2) c(3) c(4) r)
qed

lemma alice_recognizer_simps:
  "parallel_lists alice_recognizer"
  "known_face_encodings alice_recognizer = [[0, 0], [1, 0]]"
  "recognized_today alice_recognizer = {}"
  by (simp_all add: alice_recognizer_def FaceRecognizer_init_def parallel_lists_def)

lemma alice_recognizer_match:
  "best_match euclidean alice_recognizer [0, 0] = Inr (Some (1, ''Alice'', 0))"
  "best_match euclidean alice_recognizer [1, 0] = Inr (Some (2, ''Bob'', 0))"
  "best_match euclidean alice_recognizer [2, 0] = Inr None"
proof -
  have sd: "same_dimension (map (\<lambda>face. snd (snd face))
      [(1::int, ''Alice'', [0, 0]), (2, ''Bob'', [1, 0])]) [a, b]" for a b :: real
    by (simp add: same_dimension_def)
  show "best_match euclidean alice_recognizer [0, 0] = Inr (Some (1, ''Alice'', 0))"
    by (simp add: alice_recognizer_def best_match_init[OF _ sd] Let_def euclidean_2)
  show "best_match euclidean alice_recognizer [1, 0] = Inr (Some (2, ''Bob'', 0))"
    by (simp add: alice_recognizer_def best_match_init[OF _ sd] Let_def euclidean_2)
  show "best_match euclidean alice_recognizer [2, 0] = Inr None"
    by (simp add: alice_recognizer_def best_match_init[OF _ sd] Let_def euclidean_2)
qed

lemma alice_session:
  "webcam_faces euclidean (Some record_call) (alice_recognizer, [])
       [([0, 0], (900, 5, False)), ([2, 0], (901, 5, False)), ([1, 0], (902, 5, False)),
        ([0, 0], (903, 5, False))] =
     Inr (alice_recognizer\<lparr>recognized_today := {2, 1}\<rparr>,
          [(1, ''Alice'', (900, 5, False)), (2, ''Bob'', (902, 5, False))])"
  by (simp add: webcam_face_def best_match_cache alice_recognizer_match alice_recognizer_simps
      record_call_def)

theorem recognition_callback_once_until_reset_witness:
  "(parallel_lists alice_recognizer \<and>
    list_all (\<lambda>face. same_dimension (known_face_encodings alice_recognizer) (fst face))
      ([([0, 0], (900, 5, False)), ([2, 0], (901, 5, False)), ([1, 0], (902, 5, False)),
        ([0, 0], (903, 5, False))] :: (real list \<times> moment) list)) \<and>
   webcam_faces euclidean (Some record_call) (alice_recognizer, [])
       [([0, 0], (900, 5, False)), ([2, 0], (901, 5, False)), ([1, 0], (902, 5, False)),
        ([0, 0], (903, 5, False))] =
     Inr (alice_recognizer\<lparr>recognized_today := {2, 1}\<rparr>,
          [(1, ''Alice'', (900, 5, False)), (2, ''Bob'', (902, 5, False))]) \<and>
   count_list (map fst ([(1, ''Alice'', (900, 5, False)), (2, ''Bob'', (902, 5, False))]
       :: (int \<times> string \<times> moment) list)) 1 =
     (if 1 \<notin> recognized_today alice_recognizer \<and>
         list_ex (accepted_as euclidean alice_recognizer 1)
           [([0, 0], (900, 5, False)), ([2, 0], (901, 5, False)), ([1, 0], (902, 5, False)),
            ([0, 0], (903, 5, False))]
      then 1 else 0) \<and>
   list_ex (accepted_as euclidean alice_recognizer 1)
     [([0, 0], (900, 5, False)), ([2, 0], (901, 5, False)), ([1, 0], (902, 5, False)),
      ([0, 0], (903, 5, False))] \<and>
   webcam_faces euclidean (Some record_call)
       (alice_recognizer\<lparr>recognized_today := {2, 1}\<rparr>, [])
       [([2, 0], (904, 5, False)), ([0, 0], (905, 5, False))] =
     Inr (alice_recognizer\<lparr>recognized_today := {2, 1}\<rparr>, []) \<and>
   webcam_faces euclidean (Some record_call)
       (reset_recognition_cache (alice_recognizer\<lparr>recognized_today := {2, 1}\<rparr>), [])
       [([2, 0], (904, 5, False)), ([0, 0], (905, 5, False))] =
     Inr (alice_recognizer\<lparr>recognized_today := {1}\<rparr>, [(1, ''Alice'', (905, 5, False))])"
proof -
  let ?faces = "[([0, 0], (900, 5, False)), ([2, 0], (901, 5, False)), ([1, 0], (902, 5, False)),
       ([0, 0], (903, 5, False))] :: (real list \<times> moment) list"
  let ?calls = "[(1, ''Alice'', (900, 5, False)), (2, ''Bob'', (902, 5, False))]
     :: (int \<times> string \<times> moment) list"
  have h: "parallel_lists alice_recognizer \<and>
    list_all (\<lambda>face. same_dimension (known_face_encodings alice_recognizer) (fst face)) ?faces"
    by (simp add: alice_recognizer_simps same_dimension_def)
  then have h1: "parallel_lists alice_recognizer"
    and h2: "list_all (\<lambda>face. same_dimension (known_face_encodings alice_recognizer) (fst face))
       ?faces"
    by simp_all
  from recognition_callback_once_until_reset [OF h1 h2, of euclidean record_call "[]"]
  obtain cache calls where
    run: "webcam_faces euclidean (Some record_call) (alice_recognizer, []) ?faces =
       Inr (alice_recognizer\<lparr>recognized_today := cache\<rparr>, calls)"
    and cnt: "\<forall>pid. count_list (map fst calls) pid =
       (if pid \<notin> recognized_today alice_recognizer \<and>
           list_ex (accepted_as euclidean alice_recognizer pid) ?faces
        then 1 else 0)"
    by blast
  from run[unfolded alice_session] have "calls = ?calls" by simp
  with cnt have c1: "count_list (map fst ?calls) 1 =
       (if 1 \<notin> recognized_today alice_recognizer \<and>
           list_ex (accepted_as euclidean alice_recognizer 1) ?faces
        then 1 else 0)"
    by blast
  have c2: "list_ex (accepted_as euclidean alice_recognizer 1) ?faces"
    by (simp add: accepted_as_def alice_recognizer_match)
  have c3: "webcam_faces euclidean (Some record_call)
       (alice_recognizer\<lparr>recognized_today := {2, 1}\<rparr>, [])
       [([2, 0], (904, 5, False)), ([0, 0], (905, 5, False))] =
     Inr (alice_recognizer\<lparr>recognized_today := {2, 1}\<rparr>, [])"
    by (simp add: webcam_face_def best_match_cache alice_recognizer_match)
  have c4: "webcam_faces euclidean (Some record_call)
       (reset_recognition_cache (alice_recognizer\<lparr>recognized_today := {2, 1}\<rparr>), [])
       [([2, 0], (904, 5, False)), ([0, 0], (905, 5, False))] =
     Inr (alice_recognizer\<lparr>recognized_today := {1}\<rparr>, [(1, ''Alice'', (905, 5, False))])"
    by (simp add: webcam_face_def best_match_cache alice_recognizer_match
        reset_recognition_cache_def record_call_def)
  show ?thesis by (intro conjI h alice_session c1 c2 c3 c4)
qed





end
